theory Spec2Isabelle
  imports Main "HOL-Library.AList"
begin

section \<open>Data model of the registry\<close>

text \<open>
  \<^verbatim>\<open>StructType = namedtuple('StructType', ['extends', 'member_types'])\<close>.
  The field \<open>extends\<close> is a Python set; the list holds its elements in the order in which
  the interpreter iterates over it. \<open>member_types\<close> is a Python list.
\<close>

record StructType =
  extends :: "string list"
  member_types :: "string list"

text \<open>
  The dictionary \<open>struct_types\<close>: an association list in insertion order, read with
  \<^const>\<open>map_of\<close> (\<open>t in mapping\<close> is \<open>map_of mapping t \<noteq> None\<close>) and written with
  \<^const>\<open>AList.update\<close>, which like a Python dictionary keeps the position of a key that is
  already present.
\<close>

type_synonym struct_table = "(string \<times> StructType) list"

text \<open>\<^verbatim>\<open>EnumType = namedtuple('EnumType', ['extensions'])\<close>\<close>

record EnumType =
  extensions :: "string set"

text \<open>
  The exceptions that end a run: a dictionary or attribute lookup of a missing key, an
  attribute access on \<open>None\<close> (the result of a \<open>find\<close> that found nothing), the
  interpreter's recursion limit, and \<^verbatim>\<open>raise('...')\<close> of a string, which Python 3 rejects
  with a \<open>TypeError\<close> because a string is not an exception.
\<close>

datatype error = KeyError | AttributeError | RecursionError | TypeError

subsection \<open>The parsed registry\<close>

text \<open>
  The element tree is modelled by the attributes and children the script reads.
  An attribute whose presence the script tests, or that part of the elements lack, is an
  \<open>option\<close>. \<open>member_type\<close> is \<^verbatim>\<open>elem.find('type').text\<close> and \<open>t_name_text\<close> is
  \<^verbatim>\<open>t.find('name').text\<close>.
\<close>

record member_elem =
  member_values :: "string option"
  member_type :: string

record type_elem =
  t_name :: "string option"
  t_alias :: "string option"
  t_category :: "string option"
  t_structextends :: "string option"
  t_requires :: "string option"
  t_bitvalues :: "string option"
  t_name_text :: "string option"
  t_members :: "member_elem list"

record enum_ref =
  enum_ref_name :: string
  enum_ref_extends :: "string option"

text \<open>A \<open>require\<close> block: its \<open>type\<close> elements (their \<open>name\<close>) and its \<open>enum\<close> elements.\<close>

record require_elem =
  require_types :: "string list"
  require_enums :: "enum_ref list"

record extension_elem =
  extension_name :: string
  extension_supported :: string
  extension_requires :: "require_elem list"

record enable_elem =
  enable_version :: "string option"
  enable_extension :: "string option"
  enable_feature :: "string option"
  enable_struct :: "string option"
  enable_requires :: "string option"
  enable_property :: "string option"
  enable_member :: "string option"
  enable_value :: "string option"

text \<open>A \<open>spirvextension\<close> or \<open>spirvcapability\<close> element.\<close>

record spirv_elem =
  spirv_name :: string
  spirv_enables :: "enable_elem list"

text \<open>
  The root element: each group is what \<^verbatim>\<open>root.find(group).iter(tag)\<close> yields, or
  \<open>None\<close> when the group is missing. For the types this includes the \<open>type\<close> elements
  nested in members, which carry no attribute and which both loops over the types skip.
\<close>

record registry =
  registry_types :: "type_elem list option"
  registry_extensions :: "extension_elem list option"
  registry_spirvextensions :: "spirv_elem list option"
  registry_spirvcapabilities :: "spirv_elem list option"

text \<open>The completed-work document after \<open>json.loads\<close>: a dictionary of name lists.\<close>

type_synonym ledger = "(string \<times> string list) list"

text \<open>
  What the run writes: one item for each call of \<open>print\<close>, holding its arguments, and one
  item for a loop that prints the elements of a set, one per line, in the set's own order.
\<close>

datatype arg = Str string | StrList "string list"

datatype out = Print "arg list" | Print_each "string set"

section \<open>Closure engine\<close>

text \<open>
  \<^verbatim>\<open>traverse_active_struct_type(active_types, t, mapping)\<close> mutates the set
  \<open>active_types\<close>; the model returns the updated set. The second function is the
  \<^verbatim>\<open>for m in mapping[t].member_types\<close> loop of its body.
\<close>

function traverse_active_struct_type :: "string set \<Rightarrow> string \<Rightarrow> struct_table \<Rightarrow> string set"
  and traverse_member_types :: "string set \<Rightarrow> string list \<Rightarrow> struct_table \<Rightarrow> string set"
where
  "traverse_active_struct_type active_types t mapping =
     (case map_of mapping t of
        None \<Rightarrow> active_types
      | Some s \<Rightarrow>
          if t \<in> active_types then active_types
          else traverse_member_types (insert t active_types) (member_types s) mapping)"
| "traverse_member_types active_types [] mapping = active_types"
| "traverse_member_types active_types (m # ms) mapping =
     traverse_member_types (traverse_active_struct_type active_types m mapping) ms mapping"
  by pat_completeness auto

lemma traverse_grows_dom:
  "traverse_active_struct_type_traverse_member_types_dom (Inl (A, t, mp))
     \<Longrightarrow> A \<subseteq> traverse_active_struct_type A t mp"
  "traverse_active_struct_type_traverse_member_types_dom (Inr (A, ms, mp))
     \<Longrightarrow> A \<subseteq> traverse_member_types A ms mp"
proof (induction A t mp and A ms mp
    rule: traverse_active_struct_type_traverse_member_types.pinduct)
  case (1 active_types t mapping)
  then show ?case
    by (auto simp: traverse_active_struct_type.psimps split: option.splits)
next
  case (2 active_types mapping)
  then show ?case by (simp add: traverse_member_types.psimps)
next
  case (3 active_types m ms mapping)
  then show ?case by (auto simp: traverse_member_types.psimps)
qed

definition traverse_measure ::
  "string set \<times> string \<times> struct_table + string set \<times> string list \<times> struct_table \<Rightarrow> nat \<times> nat" where
  "traverse_measure x =
     (case x of
        Inl (A, t, mp) \<Rightarrow> (card (fst ` set mp - A), 0)
      | Inr (A, ms, mp) \<Rightarrow> (card (fst ` set mp - A), Suc (length ms)))"

lemma card_unvisited_less:
  assumes "map_of mp t = Some s" "t \<notin> A"
  shows "card (fst ` set mp - insert t A) < card (fst ` set mp - A)"
proof -
  have "t \<in> fst ` set mp" using assms(1) by (metis map_of_SomeD fst_conv image_eqI)
  then have "fst ` set mp - insert t A \<subset> fst ` set mp - A" using assms(2) by blast
  then show ?thesis by (simp add: psubset_card_mono)
qed

lemma card_unvisited_mono:
  "A \<subseteq> B \<Longrightarrow> card (fst ` set mp - B) \<le> card (fst ` set mp - A)"
  by (rule card_mono) auto

lemma traverse_dom_total:
  "All traverse_active_struct_type_traverse_member_types_dom"
proof (relation "inv_image (less_than <*lex*> less_than) traverse_measure")
  show "wf (inv_image (less_than <*lex*> less_than) traverse_measure)"
    by (intro wf_inv_image wf_lex_prod wf_less_than)
next
  fix active_types t and mapping :: struct_table and s
  assume "map_of mapping t = Some s" "t \<notin> active_types"
  then show "(Inr (insert t active_types, member_types s, mapping), Inl (active_types, t, mapping))
    \<in> inv_image (less_than <*lex*> less_than) traverse_measure"
    by (simp add: traverse_measure_def card_unvisited_less)
next
  fix active_types m ms and mapping :: struct_table
  show "(Inl (active_types, m, mapping), Inr (active_types, m # ms, mapping))
    \<in> inv_image (less_than <*lex*> less_than) traverse_measure"
    by (simp add: traverse_measure_def)
next
  fix active_types m ms and mapping :: struct_table
  assume "traverse_active_struct_type_traverse_member_types_dom (Inl (active_types, m, mapping))"
  then have "active_types \<subseteq> traverse_active_struct_type active_types m mapping"
    by (rule traverse_grows_dom)
  then have "card (fst ` set mapping - traverse_active_struct_type active_types m mapping)
      \<le> card (fst ` set mapping - active_types)"
    by (rule card_unvisited_mono)
  then show "(Inr (traverse_active_struct_type active_types m mapping, ms, mapping),
      Inr (active_types, m # ms, mapping))
    \<in> inv_image (less_than <*lex*> less_than) traverse_measure"
    by (auto simp: traverse_measure_def)
qed

termination traverse_active_struct_type
  by (rule traverse_dom_total)


text \<open>
  \<^verbatim>\<open>traverse_active_struct_types(base_types, mapping)\<close>: the loop over \<open>base_types\<close>
  starts from the empty set.
\<close>

definition traverse_active_struct_types :: "string list \<Rightarrow> struct_table \<Rightarrow> string set" where
  "traverse_active_struct_types base_types mapping =
     fold (\<lambda>t active_types. traverse_active_struct_type active_types t mapping) base_types {}"

text \<open>
  The closure in the words of the specification: the smallest set that contains \<open>R\<close> and
  is closed under "if \<open>s\<close> is in the set and a member type \<open>m\<close> of \<open>s\<close> is itself a known
  structure, then \<open>m\<close> is in the set".
\<close>

inductive_set spec_ActiveTypes :: "string set \<Rightarrow> struct_table \<Rightarrow> string set"
  for R :: "string set" and mapping :: struct_table
where
  root: "r \<in> R \<Longrightarrow> r \<in> spec_ActiveTypes R mapping"
| member: "s \<in> spec_ActiveTypes R mapping \<Longrightarrow> map_of mapping s = Some st
    \<Longrightarrow> m \<in> set (member_types st) \<Longrightarrow> map_of mapping m \<noteq> None
    \<Longrightarrow> m \<in> spec_ActiveTypes R mapping"

text \<open>The names of a root list that are keys of the structure table.\<close>

definition known_roots :: "string list \<Rightarrow> struct_table \<Rightarrow> string set" where
  "known_roots base_types mapping = {r \<in> set base_types. map_of mapping r \<noteq> None}"

text \<open>A set is closed at \<open>x\<close> when every known member type of \<open>x\<close> belongs to it.\<close>

definition members_in :: "struct_table \<Rightarrow> string \<Rightarrow> string set \<Rightarrow> bool" where
  "members_in mapping x S \<longleftrightarrow>
     (\<forall>st. map_of mapping x = Some st \<longrightarrow>
        (\<forall>m \<in> set (member_types st). map_of mapping m \<noteq> None \<longrightarrow> m \<in> S))"

section \<open>Extension-chain classifier\<close>

text \<open>
  \<^verbatim>\<open>struct_extends_any(active_types, t, mappings)\<close> recurses along \<open>extends\<close> with no
  visited set, so on a cyclic table it can recurse until the interpreter's recursion limit
  raises \<open>RecursionError\<close>. The first argument is the number of nested calls still
  allowed. The second function is the loop \<^verbatim>\<open>for e in mappings[t].extends\<close>, which
  returns at the first \<open>e\<close> that succeeds.
\<close>

fun struct_extends_any :: "nat \<Rightarrow> string set \<Rightarrow> string \<Rightarrow> struct_table \<Rightarrow> error + bool"
  and struct_extends_loop :: "nat \<Rightarrow> string set \<Rightarrow> string list \<Rightarrow> struct_table \<Rightarrow> error + bool"
where
  "struct_extends_any 0 A t mappings = Inl RecursionError"
| "struct_extends_any (Suc depth) A t mappings =
     (case map_of mappings t of
        None \<Rightarrow> Inr False
      | Some s \<Rightarrow> struct_extends_loop depth A (extends s) mappings)"
| "struct_extends_loop depth A [] mappings = Inr False"
| "struct_extends_loop depth A (e # es) mappings =
     (if e \<in> A then Inr True
      else case struct_extends_any depth A e mappings of
             Inl err \<Rightarrow> Inl err
           | Inr True \<Rightarrow> Inr True
           | Inr False \<Rightarrow> struct_extends_loop depth A es mappings)"

text \<open>
  \<^verbatim>\<open>find_extending_structs(active_types, mappings)\<close>: the loop over
  \<open>mappings.keys()\<close>; adding every element of a closure to \<open>extending_structs\<close> is a union.
\<close>

fun find_extending_loop ::
  "nat \<Rightarrow> string set \<Rightarrow> string list \<Rightarrow> struct_table \<Rightarrow> string set \<Rightarrow> error + string set"
where
  "find_extending_loop depth A [] mappings extending_structs = Inr extending_structs"
| "find_extending_loop depth A (m # ks) mappings extending_structs =
     (case struct_extends_any depth A m mappings of
        Inl err \<Rightarrow> Inl err
      | Inr True \<Rightarrow>
          find_extending_loop depth A ks mappings
            (extending_structs \<union> traverse_active_struct_types [m] mappings)
      | Inr False \<Rightarrow> find_extending_loop depth A ks mappings extending_structs)"

definition find_extending_structs ::
  "nat \<Rightarrow> string set \<Rightarrow> struct_table \<Rightarrow> error + string set" where
  "find_extending_structs depth A mappings =
     find_extending_loop depth A (map fst mappings) mappings {}"


text \<open>
  An extending structure in the words of the specification: its EXTENDS set meets the
  active set directly, or through a chain of other extending structures.
\<close>

inductive spec_extending :: "string set \<Rightarrow> struct_table \<Rightarrow> string \<Rightarrow> bool"
  for A :: "string set" and mappings :: struct_table
where
  direct: "map_of mappings x = Some s \<Longrightarrow> e \<in> set (extends s) \<Longrightarrow> e \<in> A
    \<Longrightarrow> spec_extending A mappings x"
| chain: "map_of mappings x = Some s \<Longrightarrow> e \<in> set (extends s) \<Longrightarrow> spec_extending A mappings e
    \<Longrightarrow> spec_extending A mappings x"

section \<open>Enum activation resolver\<close>

text \<open>The loop \<^verbatim>\<open>for m in mappings[t].member_types\<close> of \<open>find_active_enum_types\<close>.\<close>

fun member_enum_types ::
  "string list \<Rightarrow> (string \<times> EnumType) list \<Rightarrow> (string \<times> string) list \<Rightarrow> string set \<Rightarrow> string set"
where
  "member_enum_types [] enum_types bitmask_reqs active_enum_types = active_enum_types"
| "member_enum_types (m # ms) enum_types bitmask_reqs active_enum_types =
     member_enum_types ms enum_types bitmask_reqs
       (case map_of bitmask_reqs m of
          Some req \<Rightarrow> insert req active_enum_types
        | None \<Rightarrow>
            if map_of enum_types m \<noteq> None then insert m active_enum_types
            else active_enum_types)"

text \<open>
  \<^verbatim>\<open>find_active_enum_types\<close> iterates over the two sets; \<open>mappings[t]\<close> raises
  \<open>KeyError\<close> for a \<open>t\<close> that is not a key, whatever the order of the iteration, and the
  result set is the union of what each \<open>t\<close> adds.
\<close>

definition find_active_enum_types ::
  "string set \<Rightarrow> string set \<Rightarrow> struct_table \<Rightarrow> (string \<times> EnumType) list
     \<Rightarrow> (string \<times> string) list \<Rightarrow> error + string set" where
  "find_active_enum_types A E mappings enum_types bitmask_reqs =
     (if \<exists>t \<in> A. map_of mappings t = None then Inl KeyError
      else if \<exists>t \<in> E. map_of mappings t = None then Inl KeyError
      else Inr (\<Union>t \<in> A \<union> E.
             case map_of mappings t of
               None \<Rightarrow> {}
             | Some s \<Rightarrow> member_enum_types (member_types s) enum_types bitmask_reqs {}))"

section \<open>Registry model builder\<close>

text \<open>\<^verbatim>\<open>type_aliases.get(x, x)\<close>\<close>

definition resolve :: "(string \<times> string) list \<Rightarrow> string \<Rightarrow> string" where
  "resolve type_aliases x = (case map_of type_aliases x of None \<Rightarrow> x | Some y \<Rightarrow> y)"

text \<open>\<^verbatim>\<open>s.split(',')\<close>: the empty string gives one empty field.\<close>

fun split_comma :: "string \<Rightarrow> string list" where
  "split_comma [] = [[]]"
| "split_comma (c # cs) =
     (if c = CHR '','' then [] # split_comma cs
      else case split_comma cs of
             [] \<Rightarrow> [[c]]
           | w # ws \<Rightarrow> (c # w) # ws)"

text \<open>\<^verbatim>\<open>sep.join(xs)\<close>\<close>

fun join :: "string \<Rightarrow> string list \<Rightarrow> string" where
  "join sep [] = []"
| "join sep [x] = x"
| "join sep (x # y # ys) = x @ sep @ join sep (y # ys)"

definition top_level_types_pipeline :: "string set" where
  "top_level_types_pipeline =
     {''VkGraphicsPipelineCreateInfo'', ''VkComputePipelineCreateInfo'',
      ''VkRayTracingPipelineCreateInfoKHR'', ''VkDeviceCreateInfo''}"

text \<open>The root set is a Python set that is only iterated; the list is its iteration order.\<close>

definition top_level_types :: "string list" where
  "top_level_types =
     [''VkGraphicsPipelineCreateInfo'', ''VkComputePipelineCreateInfo'',
      ''VkRayTracingPipelineCreateInfoKHR'', ''VkRenderPassCreateInfo'',
      ''VkRenderPassCreateInfo2'', ''VkDescriptorSetLayoutCreateInfo'',
      ''VkSamplerCreateInfo'', ''VkShaderModuleCreateInfo'', ''VkPipelineLayoutCreateInfo'']"

text \<open>The first loop over the types: \<^verbatim>\<open>type_aliases[t.attrib['name']] = t.attrib['alias']\<close>.\<close>

fun collect_type_aliases ::
  "type_elem list \<Rightarrow> (string \<times> string) list \<Rightarrow> error + (string \<times> string) list" where
  "collect_type_aliases [] type_aliases = Inr type_aliases"
| "collect_type_aliases (t # ts) type_aliases =
     (case t_alias t of
        None \<Rightarrow> collect_type_aliases ts type_aliases
      | Some a \<Rightarrow>
          (case t_name t of
             None \<Rightarrow> Inl KeyError
           | Some n \<Rightarrow> collect_type_aliases ts (AList.update n a type_aliases)))"

text \<open>The tables and the size-table text that the second loop over the types fills.\<close>

record model =
  struct_types :: struct_table
  enum_types :: "(string \<times> EnumType) list"
  bitmask_requirements :: "(string \<times> string) list"
  shallow_copy_pnext_size_lut :: string

definition empty_model :: model where
  "empty_model =
     \<lparr>struct_types = [], enum_types = [], bitmask_requirements = [],
      shallow_copy_pnext_size_lut = []\<rparr>"

text \<open>
  The loop \<^verbatim>\<open>for ext in extends\<close> of a structure with a \<open>structextends\<close> attribute: at
  the first \<open>ext\<close> that is a pipeline root it reads the \<open>values\<close> attribute of the first
  \<open>member\<close>, appends one row and breaks. The result is the text appended.
\<close>

fun pnext_size_row :: "string list \<Rightarrow> type_elem \<Rightarrow> string \<Rightarrow> error + string" where
  "pnext_size_row [] t name = Inr []"
| "pnext_size_row (ext # exts) t name =
     (if ext \<in> top_level_types_pipeline then
        (case t_members t of
           [] \<Rightarrow> Inl AttributeError
         | m # _ \<Rightarrow>
             (case member_values m of
                None \<Rightarrow> Inl KeyError
              | Some stype \<Rightarrow>
                  Inr (''{ '' @ stype @ '', sizeof('' @ name @ '') },'' @ [CHR 0x0A])))
      else pnext_size_row exts t name)"

text \<open>
  The \<open>extends\<close> set of a structure element and the text it appends to the size table.
  \<^verbatim>\<open>set([...])\<close> keeps one copy of each name; \<^const>\<open>remdups\<close> fixes one iteration order.
\<close>

definition struct_extends :: "(string \<times> string) list \<Rightarrow> type_elem \<Rightarrow> string list" where
  "struct_extends type_aliases t =
     (case t_structextends t of
        None \<Rightarrow> []
      | Some se \<Rightarrow> remdups (map (resolve type_aliases) (split_comma se)))"

definition struct_size_rows ::
  "(string \<times> string) list \<Rightarrow> type_elem \<Rightarrow> string \<Rightarrow> error + string" where
  "struct_size_rows type_aliases t name =
     (case t_structextends t of
        None \<Rightarrow> Inr []
      | Some se \<Rightarrow> pnext_size_row (struct_extends type_aliases t) t name)"

text \<open>One iteration of the second loop over the types.\<close>

definition add_bitmask_requirement :: "type_elem \<Rightarrow> string \<Rightarrow> model \<Rightarrow> error + model" where
  "add_bitmask_requirement t req mdl =
     (case t_name_text t of
        None \<Rightarrow> Inl AttributeError
      | Some n \<Rightarrow>
          Inr (mdl\<lparr>bitmask_requirements := AList.update n req (bitmask_requirements mdl)\<rparr>))"

definition process_type :: "(string \<times> string) list \<Rightarrow> type_elem \<Rightarrow> model \<Rightarrow> error + model" where
  "process_type type_aliases t mdl =
     (case t_category t of
        None \<Rightarrow> Inr mdl
      | Some category \<Rightarrow>
          if category = ''struct'' then
            (case t_name t of
               None \<Rightarrow> Inl KeyError
             | Some name \<Rightarrow>
                 (case struct_size_rows type_aliases t name of
                    Inl err \<Rightarrow> Inl err
                  | Inr rows \<Rightarrow>
                      Inr (mdl\<lparr>shallow_copy_pnext_size_lut :=
                                 shallow_copy_pnext_size_lut mdl @ rows,
                               struct_types :=
                                 AList.update name
                                   \<lparr>extends = struct_extends type_aliases t,
                                    member_types =
                                      map (\<lambda>elem. resolve type_aliases (member_type elem))
                                        (t_members t)\<rparr>
                                   (struct_types mdl)\<rparr>)))
          else if category = ''enum'' then
            (case t_name t of
               None \<Rightarrow> Inl KeyError
             | Some name0 \<Rightarrow>
                 (let name = resolve type_aliases name0
                  in if name \<noteq> ''VkStructureType'' \<and> name \<noteq> ''VkFormat''
                          \<and> name \<noteq> ''VkObjectType''
                     then Inr (mdl\<lparr>enum_types :=
                                      AList.update name \<lparr>extensions = {}\<rparr> (enum_types mdl)\<rparr>)
                     else Inr mdl))
          else if category = ''bitmask'' then
            (case t_requires t of
               Some req \<Rightarrow> add_bitmask_requirement t req mdl
             | None \<Rightarrow>
                 (case t_bitvalues t of
                    Some req \<Rightarrow> add_bitmask_requirement t req mdl
                  | None \<Rightarrow> Inr mdl))
          else Inr mdl)"

fun process_types :: "(string \<times> string) list \<Rightarrow> type_elem list \<Rightarrow> model \<Rightarrow> error + model" where
  "process_types type_aliases [] mdl = Inr mdl"
| "process_types type_aliases (t # ts) mdl =
     (case process_type type_aliases t mdl of
        Inl err \<Rightarrow> Inl err
      | Inr mdl' \<Rightarrow> process_types type_aliases ts mdl')"

subsection \<open>The rows of the size table\<close>

text \<open>
  The size table read off the type elements: the discriminant tag of a structure is the
  \<open>values\<close> attribute of its first member; a structure element chains onto the pipeline
  roots when its \<open>extends\<close> set names at least one of them; and such an element stands
  for one row, the pair of its tag and \<open>sizeof\<close> of its name.
\<close>

definition first_member_tag :: "type_elem \<Rightarrow> string option" where
  "first_member_tag t = (case t_members t of [] \<Rightarrow> None | m # _ \<Rightarrow> member_values m)"

definition chains_onto_pipeline :: "(string \<times> string) list \<Rightarrow> type_elem \<Rightarrow> bool" where
  "chains_onto_pipeline type_aliases t \<longleftrightarrow>
     t_category t = Some ''struct''
     \<and> set (struct_extends type_aliases t) \<inter> top_level_types_pipeline \<noteq> {}"

definition size_table_rows :: "(string \<times> string) list \<Rightarrow> type_elem \<Rightarrow> string" where
  "size_table_rows type_aliases t =
     (if chains_onto_pipeline type_aliases t then
        (case (first_member_tag t, t_name t) of
           (Some stype, Some name) \<Rightarrow> ''{ '' @ stype @ '', sizeof('' @ name @ '') },'' @ [CHR 0x0A]
         | _ \<Rightarrow> [])
      else [])"

section \<open>Report\<close>

text \<open>
  A step of the run: what it has printed, and the exception that ended it or its value.
\<close>

type_synonym 'a outcome = "out list \<times> (error + 'a)"

definition printed :: "out list \<Rightarrow> unit outcome" where
  "printed items = (items, Inr ())"

definition and_then :: "'a outcome \<Rightarrow> ('a \<Rightarrow> 'b outcome) \<Rightarrow> 'b outcome" where
  "and_then step rest =
     (case step of
        (items, Inl err) \<Rightarrow> (items, Inl err)
      | (items, Inr v) \<Rightarrow> (case rest v of (items', r) \<Rightarrow> (items @ items', r)))"

text \<open>\<^verbatim>\<open>set(completed[key]) if key in completed else set()\<close>\<close>

definition ledger_set :: "ledger \<Rightarrow> string \<Rightarrow> string set" where
  "ledger_set completed k = (case map_of completed k of None \<Rightarrow> {} | Some names \<Rightarrow> set names)"

definition supports_vulkan :: "extension_elem \<Rightarrow> bool" where
  "supports_vulkan ext \<longleftrightarrow> ''vulkan'' \<in> set (split_comma (extension_supported ext))"

subsection \<open>Completed extensions\<close>

fun completed_extensions_rows ::
  "extension_elem list \<Rightarrow> string set \<Rightarrow> string set \<Rightarrow> out list" where
  "completed_extensions_rows [] completed_extensions ignored_extensions = []"
| "completed_extensions_rows (ext # exts) completed_extensions ignored_extensions =
     (if supports_vulkan ext then
        (if extension_name ext \<in> completed_extensions
         then [Print [Str (extension_name ext), Str ''|| Completed'']]
         else if extension_name ext \<in> ignored_extensions
         then [Print [Str (extension_name ext), Str ''|| Ignored'']]
         else [])
      else [])
     @ completed_extensions_rows exts completed_extensions ignored_extensions"

subsection \<open>Additions\<close>

text \<open>The five lists an extension of the Additions loop collects.\<close>

record additions =
  new_structs :: "string list"
  new_enums :: "string list"
  extended_enums :: "(string \<times> string) list"
  feature_structs :: "string list"
  property_structs :: "string list"

definition no_additions :: additions where
  "no_additions =
     \<lparr>new_structs = [], new_enums = [], extended_enums = [], feature_structs = [],
      property_structs = []\<rparr>"

text \<open>The tables and sets the Additions loop reads.\<close>

record report_env =
  env_type_aliases :: "(string \<times> string) list"
  env_struct_types :: struct_table
  env_active_types :: "string set"
  env_extending_types :: "string set"
  env_active_enums :: "string set"
  env_cherry_picked :: "string set"

text \<open>The body of \<^verbatim>\<open>for t in reqs.iter('type')\<close>; the argument is \<open>t.attrib['name']\<close>.\<close>

definition scan_type :: "report_env \<Rightarrow> string \<Rightarrow> additions \<Rightarrow> additions" where
  "scan_type env raw_name acc =
     (let type_name = resolve (env_type_aliases env) raw_name;
          acc1 =
            (if type_name \<in> env_active_types env \<or> type_name \<in> env_extending_types env then
               (if type_name \<notin> env_cherry_picked env
                then acc\<lparr>new_structs := new_structs acc @ [type_name]\<rparr> else acc)
             else if type_name \<in> env_active_enums env then
               (if type_name \<notin> env_cherry_picked env
                then acc\<lparr>new_enums := new_enums acc @ [type_name]\<rparr> else acc)
             else acc)
      in case map_of (env_struct_types env) type_name of
           None \<Rightarrow> acc1
         | Some s \<Rightarrow>
             (let acc2 =
                    (if ''VkPhysicalDeviceFeatures2'' \<in> set (extends s)
                     then acc1\<lparr>feature_structs := feature_structs acc1 @ [type_name]\<rparr>
                     else acc1)
              in if ''VkPhysicalDeviceProperties2'' \<in> set (extends s)
                 then acc2\<lparr>property_structs := property_structs acc2 @ [type_name]\<rparr>
                 else acc2))"

text \<open>
  The body of \<^verbatim>\<open>for e in reqs.iter('enum')\<close>: the test against \<open>cherry_picked\<close> comes
  first, on \<open>e.attrib['name']\<close> as it is written in the registry; the alias lookup follows.
\<close>

definition scan_enum :: "report_env \<Rightarrow> enum_ref \<Rightarrow> additions \<Rightarrow> additions" where
  "scan_enum env e acc =
     (if enum_ref_name e \<notin> env_cherry_picked env then
        (let enum_name = resolve (env_type_aliases env) (enum_ref_name e)
         in case enum_ref_extends e of
              None \<Rightarrow> acc
            | Some target \<Rightarrow>
                if target \<in> env_active_enums env
                then acc\<lparr>extended_enums := extended_enums acc @ [(target, enum_name)]\<rparr>
                else acc)
      else acc)"

definition scan_require :: "report_env \<Rightarrow> require_elem \<Rightarrow> additions \<Rightarrow> additions" where
  "scan_require env reqs acc =
     fold (scan_enum env) (require_enums reqs) (fold (scan_type env) (require_types reqs) acc)"

definition scan_extension :: "report_env \<Rightarrow> extension_elem \<Rightarrow> additions" where
  "scan_extension env ext = fold (scan_require env) (extension_requires ext) no_additions"

text \<open>
  \<^verbatim>\<open>len(new_structs) + len(new_enums) + len(extended_enums) > 0\<close>
\<close>

definition section_emitted :: "additions \<Rightarrow> bool" where
  "section_emitted a \<longleftrightarrow>
     length (new_structs a) + length (new_enums a) + length (extended_enums a) > 0"

text \<open>
  The loop over \<open>new_structs\<close>: \<open>struct_types[new_struct]\<close> raises \<open>KeyError\<close> for a name
  that is not a key.
\<close>

fun print_new_structs :: "struct_table \<Rightarrow> string list \<Rightarrow> unit outcome" where
  "print_new_structs tbl [] = printed []"
| "print_new_structs tbl (new_struct # rest) =
     (case map_of tbl new_struct of
        None \<Rightarrow> ([], Inl KeyError)
      | Some s \<Rightarrow>
          and_then
            (printed [Print [Str (CHR 0x09 # new_struct), Str ''extends'',
                             Str (join '', '' (extends s))]])
            (\<lambda>_. print_new_structs tbl rest))"

definition extension_section :: "report_env \<Rightarrow> extension_elem \<Rightarrow> unit outcome" where
  "extension_section env ext =
     (let a = scan_extension env ext
      in if section_emitted a then
           and_then (printed [Print [Str ''==='', Str (extension_name ext), Str ''==='']])
             (\<lambda>_. and_then (print_new_structs (env_struct_types env) (new_structs a))
               (\<lambda>_. printed
                  (map (\<lambda>new_enum. Print [Str (CHR 0x09 # new_enum)]) (new_enums a)
                   @ map (\<lambda>extended_enum.
                            Print [Str (CHR 0x09 # fst extended_enum), Str ''adds'',
                                   Str (snd extended_enum)])
                       (extended_enums a)
                   @ [Print [Str ''   Feature:'', Str (join '', '' (feature_structs a))],
                      Print [Str ''  Property:'', Str (join '', '' (property_structs a))],
                      Print [Str []]])))
         else printed [])"

fun additions_rows ::
  "report_env \<Rightarrow> extension_elem list \<Rightarrow> string set \<Rightarrow> string set \<Rightarrow> unit outcome" where
  "additions_rows env [] completed_extensions ignored_extensions = printed []"
| "additions_rows env (ext # exts) completed_extensions ignored_extensions =
     (if supports_vulkan ext then
        (if extension_name ext \<in> completed_extensions \<or> extension_name ext \<in> ignored_extensions
         then additions_rows env exts completed_extensions ignored_extensions
         else and_then (extension_section env ext)
                (\<lambda>_. additions_rows env exts completed_extensions ignored_extensions))
      else additions_rows env exts completed_extensions ignored_extensions)"

subsection \<open>SPIR-V extensions table\<close>

text \<open>
  The loop \<^verbatim>\<open>for en in ext.iter('enable')\<close> with its two variables \<open>core_version\<close>
  and \<open>vkext\<close>; a second \<open>extension\<close> attribute reaches \<^verbatim>\<open>raise('...')\<close>.
\<close>

fun spirv_enable_loop ::
  "enable_elem list \<Rightarrow> string option \<Rightarrow> string option
     \<Rightarrow> error + (string option \<times> string option)" where
  "spirv_enable_loop [] core_version vkext = Inr (core_version, vkext)"
| "spirv_enable_loop (en # ens) core_version vkext =
     (let core_version' =
            (case enable_version en of None \<Rightarrow> core_version | Some v \<Rightarrow> Some v)
      in case enable_extension en of
           None \<Rightarrow> spirv_enable_loop ens core_version' vkext
         | Some x \<Rightarrow>
             (case vkext of
                Some _ \<Rightarrow> Inl TypeError
              | None \<Rightarrow> spirv_enable_loop ens core_version' (Some x)))"

text \<open>
  \<^verbatim>\<open>'"{0}", "{1}", {2}'.format(name, vkext, 'VK_API' + core_version[2:] if core_version else 0)\<close>:
  \<open>None\<close> is formatted as \<open>None\<close>, and an empty \<open>core_version\<close> counts as false.
\<close>

definition spirv_row_text :: "string \<Rightarrow> string option \<Rightarrow> string option \<Rightarrow> string" where
  "spirv_row_text name vkext core_version =
     [CHR 0x22] @ name @ [CHR 0x22] @ '', '' @ [CHR 0x22]
     @ (case vkext of None \<Rightarrow> ''None'' | Some x \<Rightarrow> x) @ [CHR 0x22] @ '', ''
     @ (case core_version of
          None \<Rightarrow> ''0''
        | Some v \<Rightarrow> if v = [] then ''0'' else ''VK_API'' @ drop 2 v)"

definition spirv_extension_row :: "spirv_elem \<Rightarrow> unit outcome" where
  "spirv_extension_row ext =
     (case spirv_enable_loop (spirv_enables ext) None None of
        Inl err \<Rightarrow> ([], Inl err)
      | Inr (core_version, vkext) \<Rightarrow>
          printed [Print [Str ''{'', Str (spirv_row_text (spirv_name ext) vkext core_version),
                          Str ''},'']])"

fun spirv_extension_rows :: "spirv_elem list \<Rightarrow> unit outcome" where
  "spirv_extension_rows [] = printed []"
| "spirv_extension_rows (ext # exts) =
     and_then (spirv_extension_row ext) (\<lambda>_. spirv_extension_rows exts)"

definition spirv_extensions_section :: "registry \<Rightarrow> unit outcome" where
  "spirv_extensions_section root =
     and_then (printed [Print [Str ([CHR 0x0A, CHR 0x0A] @ ''=== SPIR-V extensions table ==='')]])
       (\<lambda>_. case registry_spirvextensions root of
               None \<Rightarrow> ([], Inl AttributeError)
             | Some exts \<Rightarrow> spirv_extension_rows exts)"

subsection \<open>SPIR-V capabilities\<close>

fun completed_capability_rows :: "spirv_elem list \<Rightarrow> string set \<Rightarrow> out list" where
  "completed_capability_rows [] completed_spirv_capabilities = []"
| "completed_capability_rows (ext # exts) completed_spirv_capabilities =
     (if spirv_name ext \<in> completed_spirv_capabilities
      then [Print [Str (spirv_name ext), Str ''|| Complete'']] else [])
     @ completed_capability_rows exts completed_spirv_capabilities"

definition print_requires_from :: "enable_elem \<Rightarrow> out list" where
  "print_requires_from en =
     (case enable_requires en of
        None \<Rightarrow> []
      | Some r \<Rightarrow> [Print [Str (CHR 0x09 # ''          from:''), StrList (split_comma r)]])"

text \<open>The body of the loop over the enable conditions of a missing capability.\<close>

definition capability_enable_rows :: "enable_elem \<Rightarrow> unit outcome" where
  "capability_enable_rows en =
     and_then
       (printed (case enable_version en of
                   None \<Rightarrow> []
                 | Some v \<Rightarrow> [Print [Str (CHR 0x09 # ''Core version:''), Str v]]))
       (\<lambda>_. and_then
          (case enable_feature en of
             None \<Rightarrow> printed []
           | Some f \<Rightarrow>
               (case enable_struct en of
                  None \<Rightarrow> ([], Inl KeyError)
                | Some st \<Rightarrow>
                    printed (Print [Str (CHR 0x09 # ''Vulkan feature:''), Str (st @ ''::'' @ f)]
                             # print_requires_from en)))
          (\<lambda>_. and_then
             (case enable_property en of
                None \<Rightarrow> printed []
              | Some pr \<Rightarrow>
                  (case enable_member en of
                     None \<Rightarrow> ([], Inl KeyError)
                   | Some mb \<Rightarrow>
                       (case enable_value en of
                          None \<Rightarrow> ([], Inl KeyError)
                        | Some v \<Rightarrow>
                            printed (Print [Str (CHR 0x09 # ''Vulkan property:''),
                                            Str (pr @ ''::'' @ mb), Str ''sets'', Str v]
                                     # print_requires_from en))))
             (\<lambda>_. printed
                (case enable_extension en of
                   None \<Rightarrow> []
                 | Some x \<Rightarrow> [Print [Str (CHR 0x09 # ''Vulkan extension:''), Str x]]))))"

fun capability_enables :: "enable_elem list \<Rightarrow> unit outcome" where
  "capability_enables [] = printed []"
| "capability_enables (en # ens) =
     and_then (capability_enable_rows en) (\<lambda>_. capability_enables ens)"

fun missing_capability_rows :: "spirv_elem list \<Rightarrow> string set \<Rightarrow> unit outcome" where
  "missing_capability_rows [] completed_spirv_capabilities = printed []"
| "missing_capability_rows (ext # exts) completed_spirv_capabilities =
     (if spirv_name ext \<in> completed_spirv_capabilities
      then missing_capability_rows exts completed_spirv_capabilities
      else and_then (printed [Print [Str (spirv_name ext)]])
             (\<lambda>_. and_then (capability_enables (spirv_enables ext))
                (\<lambda>_. missing_capability_rows exts completed_spirv_capabilities)))"

definition spirv_capabilities_sections :: "registry \<Rightarrow> ledger \<Rightarrow> unit outcome" where
  "spirv_capabilities_sections root completed =
     and_then
       (printed [Print [Str ([CHR 0x0A, CHR 0x0A] @ ''=== Completed SPIR-V capabilities ==='')]])
       (\<lambda>_. case registry_spirvcapabilities root of
               None \<Rightarrow> ([], Inl AttributeError)
             | Some caps \<Rightarrow>
                 and_then
                   (printed
                      (completed_capability_rows caps (ledger_set completed ''spirvcapabilities'')
                       @ [Print [Str ([CHR 0x0A, CHR 0x0A]
                                      @ ''=== Missing SPIR-V capabilities ==='')]]))
                   (\<lambda>_. missing_capability_rows caps
                           (ledger_set completed ''spirvcapabilities'')))"

section \<open>The run\<close>

text \<open>
  What \<open>main\<close> computes before its first \<open>print\<close>: the alias table, the model, the
  active types and the extending types.
\<close>

record analysis =
  an_type_aliases :: "(string \<times> string) list"
  an_model :: model
  an_active_types :: "string set"
  an_extending_types :: "string set"

definition analyse :: "nat \<Rightarrow> registry \<Rightarrow> error + analysis" where
  "analyse depth root =
     (case registry_types root of
        None \<Rightarrow> Inl AttributeError
      | Some types \<Rightarrow>
          (case collect_type_aliases types [] of
             Inl err \<Rightarrow> Inl err
           | Inr type_aliases \<Rightarrow>
               (case process_types type_aliases types empty_model of
                  Inl err \<Rightarrow> Inl err
                | Inr mdl \<Rightarrow>
                    (let active_types =
                           traverse_active_struct_types top_level_types (struct_types mdl)
                     in case find_extending_structs depth active_types (struct_types mdl) of
                          Inl err \<Rightarrow> Inl err
                        | Inr extending_types \<Rightarrow>
                            Inr \<lparr>an_type_aliases = type_aliases, an_model = mdl,
                                 an_active_types = active_types,
                                 an_extending_types = extending_types\<rparr>))))"

text \<open>The sections from \<open>=== pNext LUT ===\<close> to the end of \<open>=== Additions ===\<close>.\<close>

definition report_sections :: "registry \<Rightarrow> ledger \<Rightarrow> analysis \<Rightarrow> unit outcome" where
  "report_sections root completed an =
     and_then
       (printed
          [Print [Str ([CHR 0x0A, CHR 0x0A] @ ''=== pNext LUT ==='')],
           Print [Str (shallow_copy_pnext_size_lut (an_model an))],
           Print [Str ([CHR 0x0A, CHR 0x0A] @ ''=== Base Types ==='')],
           Print_each (an_active_types an),
           Print [Str ([CHR 0x0A, CHR 0x0A] @ ''=== Extending Types ==='')],
           Print_each (an_extending_types an),
           Print [Str ([CHR 0x0A, CHR 0x0A] @ ''=== Active Enums ==='')]])
       (\<lambda>_. case find_active_enum_types (an_active_types an) (an_extending_types an)
                    (struct_types (an_model an)) (enum_types (an_model an))
                    (bitmask_requirements (an_model an)) of
               Inl err \<Rightarrow> ([], Inl err)
             | Inr active_enums \<Rightarrow>
                 and_then
                   (printed
                      [Print_each active_enums,
                       Print [Str ([CHR 0x0A, CHR 0x0A] @ ''=== Completed extensions ==='')]])
                   (\<lambda>_. case registry_extensions root of
                           None \<Rightarrow> ([], Inl AttributeError)
                         | Some exts \<Rightarrow>
                             and_then
                               (printed
                                  (completed_extensions_rows exts
                                     (ledger_set completed ''extensions'')
                                     (ledger_set completed ''fully-ignored'')
                                   @ [Print [Str ([CHR 0x0A, CHR 0x0A] @ ''=== Additions ==='')]]))
                               (\<lambda>_. additions_rows
                                       \<lparr>env_type_aliases = an_type_aliases an,
                                        env_struct_types = struct_types (an_model an),
                                        env_active_types = an_active_types an,
                                        env_extending_types = an_extending_types an,
                                        env_active_enums = active_enums,
                                        env_cherry_picked = ledger_set completed ''cherry-pick''\<rparr>
                                       exts
                                       (ledger_set completed ''extensions'')
                                       (ledger_set completed ''fully-ignored''))))"

text \<open>
  \<open>main\<close> after the two documents are loaded. \<open>depth\<close> is the recursion limit, \<open>root\<close>
  the registry and \<open>completed\<close> the completed-work document.
\<close>

definition main :: "nat \<Rightarrow> registry \<Rightarrow> ledger \<Rightarrow> unit outcome" where
  "main depth root completed =
     (case analyse depth root of
        Inl err \<Rightarrow> ([], Inl err)
      | Inr an \<Rightarrow>
          and_then (report_sections root completed an)
            (\<lambda>_. and_then (spirv_extensions_section root)
               (\<lambda>_. spirv_capabilities_sections root completed)))"

section \<open>The enabling extensions of a SPIR-V extension\<close>

text \<open>
  The enabling Vulkan-extension conditions of a SPIR-V extension: its \<open>enable\<close> elements
  with an \<open>extension\<close> attribute. It declares several when there is more than one.
\<close>

definition extension_conditions :: "spirv_elem \<Rightarrow> enable_elem list" where
  "extension_conditions ext = filter (\<lambda>en. enable_extension en \<noteq> None) (spirv_enables ext)"

definition declares_several :: "spirv_elem \<Rightarrow> bool" where
  "declares_several ext \<longleftrightarrow> 1 < length (extension_conditions ext)"

section \<open>The references of an extension\<close>

text \<open>
  The type references of an extension in the order of its requirement blocks, each
  alias-resolved as the scan resolves it, and its enum-value references; the tests the
  scan applies to a resolved type name; and the pair an enum-value reference contributes.
\<close>

definition type_refs :: "report_env \<Rightarrow> extension_elem \<Rightarrow> string list" where
  "type_refs env ext =
     map (resolve (env_type_aliases env)) (concat (map require_types (extension_requires ext)))"

definition enum_refs :: "extension_elem \<Rightarrow> enum_ref list" where
  "enum_refs ext = concat (map require_enums (extension_requires ext))"

definition is_new_struct :: "report_env \<Rightarrow> string \<Rightarrow> bool" where
  "is_new_struct env n \<longleftrightarrow>
     (n \<in> env_active_types env \<or> n \<in> env_extending_types env) \<and> n \<notin> env_cherry_picked env"

definition is_new_enum :: "report_env \<Rightarrow> string \<Rightarrow> bool" where
  "is_new_enum env n \<longleftrightarrow>
     n \<notin> env_active_types env \<and> n \<notin> env_extending_types env \<and> n \<in> env_active_enums env
     \<and> n \<notin> env_cherry_picked env"

definition is_feature_struct :: "report_env \<Rightarrow> string \<Rightarrow> bool" where
  "is_feature_struct env n \<longleftrightarrow>
     (case map_of (env_struct_types env) n of
        None \<Rightarrow> False
      | Some s \<Rightarrow> ''VkPhysicalDeviceFeatures2'' \<in> set (extends s))"

definition is_property_struct :: "report_env \<Rightarrow> string \<Rightarrow> bool" where
  "is_property_struct env n \<longleftrightarrow>
     (case map_of (env_struct_types env) n of
        None \<Rightarrow> False
      | Some s \<Rightarrow> ''VkPhysicalDeviceProperties2'' \<in> set (extends s))"

definition enum_pair :: "report_env \<Rightarrow> enum_ref \<Rightarrow> (string \<times> string) list" where
  "enum_pair env e =
     (case enum_ref_extends e of
        None \<Rightarrow> []
      | Some target \<Rightarrow>
          if enum_ref_name e \<notin> env_cherry_picked env \<and> target \<in> env_active_enums env
          then [(target, resolve (env_type_aliases env) (enum_ref_name e))] else [])"

section \<open>Example tables\<close>

text \<open>
  A table with a cycle in its member types (\<open>R\<close> has a member of type \<open>A\<close>, and \<open>A\<close> one
  of type \<open>R\<close>), a member type that is not a structure, and a structure \<open>X\<close> that extends
  \<open>R\<close>.
\<close>

definition example_table :: struct_table where
  "example_table =
     [(''R'', \<lparr>extends = [], member_types = [''A'', ''uint32_t'']\<rparr>),
      (''A'', \<lparr>extends = [], member_types = [''R'']\<rparr>),
      (''X'', \<lparr>extends = [''R''], member_types = []\<rparr>)]"

text \<open>
  A registry whose alias table maps \<open>VALUE_OLD\<close> to \<open>VALUE_NEW\<close>, with one extension that
  adds the value \<open>VALUE_OLD\<close> to the active enumeration \<open>VkE\<close>, and a completed-work
  document that cherry-picks \<open>VALUE_NEW\<close>.
\<close>

definition plain_type :: type_elem where
  "plain_type =
     \<lparr>t_name = None, t_alias = None, t_category = None, t_structextends = None,
      t_requires = None, t_bitvalues = None, t_name_text = None, t_members = []\<rparr>"

definition cherry_registry :: registry where
  "cherry_registry =
     \<lparr>registry_types = Some
        [plain_type\<lparr>t_name := Some ''VALUE_OLD'', t_alias := Some ''VALUE_NEW''\<rparr>,
         plain_type\<lparr>t_name := Some ''VkE'', t_category := Some ''enum''\<rparr>,
         plain_type\<lparr>t_name := Some ''VkSamplerCreateInfo'', t_category := Some ''struct'',
           t_members := [\<lparr>member_values = Some ''VK_STRUCTURE_TYPE_SAMPLER_CREATE_INFO'',
                           member_type = ''VkStructureType''\<rparr>,
                         \<lparr>member_values = None, member_type = ''VkE''\<rparr>]\<rparr>],
      registry_extensions = Some
        [\<lparr>extension_name = ''VK_EXT_example'', extension_supported = ''vulkan'',
          extension_requires =
            [\<lparr>require_types = [],
              require_enums =
                [\<lparr>enum_ref_name = ''VALUE_OLD'', enum_ref_extends = Some ''VkE''\<rparr>]\<rparr>]\<rparr>],
      registry_spirvextensions = Some [],
      registry_spirvcapabilities = Some []\<rparr>"

definition cherry_ledger :: ledger where
  "cherry_ledger = [(''cherry-pick'', [''VALUE_NEW''])]"

text \<open>
  An environment in which \<open>VkOldKHR\<close> is an alias of the structure \<open>VkNew\<close>, which extends
  the device-feature aggregator, is cherry-picked and is in none of the three sets; and an
  extension that references it.
\<close>

definition example_env :: report_env where
  "example_env =
     \<lparr>env_type_aliases = [(''VkOldKHR'', ''VkNew'')],
      env_struct_types =
        [(''VkNew'', \<lparr>extends = [''VkPhysicalDeviceFeatures2'', ''VkDeviceCreateInfo''],
                      member_types = []\<rparr>)],
      env_active_types = {},
      env_extending_types = {},
      env_active_enums = {''VkE''},
      env_cherry_picked = {''VkNew''}\<rparr>"

definition quiet_extension :: extension_elem where
  "quiet_extension =
     \<lparr>extension_name = ''VK_EXT_quiet'', extension_supported = ''vulkan,vulkansc'',
      extension_requires =
        [\<lparr>require_types = [''VkOldKHR'', ''VkUnknown''],
          require_enums =
            [\<lparr>enum_ref_name = ''VK_EXT_QUIET_SPEC_VERSION'', enum_ref_extends = None\<rparr>,
             \<lparr>enum_ref_name = ''VK_OTHER_VALUE'', enum_ref_extends = Some ''VkOther''\<rparr>]\<rparr>]\<rparr>"

text \<open>
  Two structure elements: one whose \<open>structextends\<close> names two pipeline roots, and one
  that extends a structure that is not a pipeline root.
\<close>

definition pipeline_types :: "type_elem list" where
  "pipeline_types =
     [plain_type\<lparr>t_name := Some ''VkFooEXT'', t_category := Some ''struct'',
        t_structextends := Some ''VkGraphicsPipelineCreateInfo,VkComputePipelineCreateInfo'',
        t_members := [\<lparr>member_values = Some ''VK_STRUCTURE_TYPE_FOO_EXT'',
                        member_type = ''VkStructureType''\<rparr>,
                      \<lparr>member_values = None, member_type = ''uint32_t''\<rparr>]\<rparr>,
      plain_type\<lparr>t_name := Some ''VkBarEXT'', t_category := Some ''struct'',
        t_structextends := Some ''VkSamplerCreateInfo'',
        t_members := [\<lparr>member_values = Some ''VK_STRUCTURE_TYPE_BAR_EXT'',
                        member_type = ''VkStructureType''\<rparr>]\<rparr>]"

text \<open>
  A registry with no types and no extensions, and two SPIR-V extensions: the first with a
  core version and one enabling extension, the second with two enabling extensions.
\<close>

definition plain_enable :: enable_elem where
  "plain_enable =
     \<lparr>enable_version = None, enable_extension = None, enable_feature = None,
      enable_struct = None, enable_requires = None, enable_property = None,
      enable_member = None, enable_value = None\<rparr>"

definition spirv_registry :: registry where
  "spirv_registry =
     \<lparr>registry_types = Some [], registry_extensions = Some [],
      registry_spirvextensions = Some
        [\<lparr>spirv_name = ''SPV_KHR_good'',
          spirv_enables = [plain_enable\<lparr>enable_version := Some ''VK_VERSION_1_1''\<rparr>,
                           plain_enable\<lparr>enable_extension := Some ''VK_KHR_good''\<rparr>]\<rparr>,
         \<lparr>spirv_name = ''SPV_KHR_twice'',
          spirv_enables = [plain_enable\<lparr>enable_extension := Some ''VK_KHR_one''\<rparr>,
                           plain_enable\<lparr>enable_extension := Some ''VK_KHR_two''\<rparr>]\<rparr>],
      registry_spirvcapabilities = Some []\<rparr>"

section \<open>Properties of the closure engine\<close>

subsection \<open>The traversal only adds, and only what the closure rule allows\<close>

lemma traverse_grows:
  "A \<subseteq> traverse_active_struct_type A t mp"
  "A \<subseteq> traverse_member_types A ms mp"
  by (rule traverse_grows_dom, rule traverse_dom_total [rule_format])+

lemma traverse_member_types_fold:
  "traverse_member_types A ms mp = fold (\<lambda>t A'. traverse_active_struct_type A' t mp) ms A"
  by (induction ms arbitrary: A) simp_all

lemma traverse_within:
  "(\<forall>x \<in> S. members_in mp x S) \<Longrightarrow> A \<subseteq> S \<Longrightarrow> (map_of mp t \<noteq> None \<longrightarrow> t \<in> S)
     \<Longrightarrow> traverse_active_struct_type A t mp \<subseteq> S"
  "(\<forall>x \<in> S. members_in mp x S) \<Longrightarrow> A \<subseteq> S \<Longrightarrow> (\<forall>m \<in> set ms. map_of mp m \<noteq> None \<longrightarrow> m \<in> S)
     \<Longrightarrow> traverse_member_types A ms mp \<subseteq> S"
proof (induction A t mp and A ms mp
    rule: traverse_active_struct_type_traverse_member_types.induct)
  case (1 active_types t mapping)
  show ?case
  proof (cases "map_of mapping t")
    case None
    then show ?thesis using "1.prems" by simp
  next
    case (Some s)
    show ?thesis
    proof (cases "t \<in> active_types")
      case True
      then show ?thesis using Some "1.prems" by simp
    next
      case False
      have tS: "t \<in> S" using Some "1.prems"(3) by simp
      then have "members_in mapping t S" using "1.prems"(1) by blast
      then have ms: "\<forall>m \<in> set (member_types s). map_of mapping m \<noteq> None \<longrightarrow> m \<in> S"
        using Some by (simp add: members_in_def)
      have "traverse_member_types (insert t active_types) (member_types s) mapping \<subseteq> S"
        using "1.IH" [OF Some False "1.prems"(1) _ ms] tS "1.prems"(2) by simp
      then show ?thesis using Some False by simp
    qed
  qed
next
  case (2 active_types mapping)
  then show ?case by simp
next
  case (3 active_types m ms mapping)
  have a: "traverse_active_struct_type active_types m mapping \<subseteq> S"
    using "3.IH"(1) [OF "3.prems"(1,2)] "3.prems"(3) by simp
  have "traverse_member_types (traverse_active_struct_type active_types m mapping) ms mapping \<subseteq> S"
    using "3.IH"(2) [OF "3.prems"(1) a] "3.prems"(3) by simp
  then show ?case by simp
qed

subsection \<open>Everything the traversal adds is closed in the result\<close>

lemma traverse_closed:
  "(map_of mp t \<noteq> None \<longrightarrow> t \<in> traverse_active_struct_type A t mp) \<and>
   (\<forall>x \<in> traverse_active_struct_type A t mp - A.
      members_in mp x (traverse_active_struct_type A t mp))"
  "(\<forall>m \<in> set ms. map_of mp m \<noteq> None \<longrightarrow> m \<in> traverse_member_types A ms mp) \<and>
   (\<forall>x \<in> traverse_member_types A ms mp - A.
      members_in mp x (traverse_member_types A ms mp))"
proof (induction A t mp and A ms mp
    rule: traverse_active_struct_type_traverse_member_types.induct)
  case (1 active_types t mapping)
  show ?case
  proof (cases "map_of mapping t")
    case None
    then show ?thesis by simp
  next
    case (Some s)
    show ?thesis
    proof (cases "t \<in> active_types")
      case True
      then show ?thesis using Some by simp
    next
      case False
      let ?res = "traverse_member_types (insert t active_types) (member_types s) mapping"
      have eq: "traverse_active_struct_type active_types t mapping = ?res"
        using Some False by simp
      have ih1: "\<forall>m \<in> set (member_types s). map_of mapping m \<noteq> None \<longrightarrow> m \<in> ?res"
        and ih2: "\<forall>x \<in> ?res - insert t active_types. members_in mapping x ?res"
        using "1.IH" [OF Some False] by blast+
      have t_in: "t \<in> ?res" using traverse_grows(2) [of "insert t active_types"] by blast
      have "members_in mapping t ?res"
        using ih1 Some by (simp add: members_in_def)
      then have "\<forall>x \<in> ?res - active_types. members_in mapping x ?res"
        using ih2 by blast
      then show ?thesis using eq t_in by simp
    qed
  qed
next
  case (2 active_types mapping)
  then show ?case by simp
next
  case (3 active_types m ms mapping)
  let ?A1 = "traverse_active_struct_type active_types m mapping"
  let ?res = "traverse_member_types ?A1 ms mapping"
  have sub: "?A1 \<subseteq> ?res" by (rule traverse_grows(2))
  have m_in: "map_of mapping m \<noteq> None \<longrightarrow> m \<in> ?A1"
    and cl1: "\<forall>x \<in> ?A1 - active_types. members_in mapping x ?A1"
    using "3.IH"(1) by blast+
  have ms_in: "\<forall>m' \<in> set ms. map_of mapping m' \<noteq> None \<longrightarrow> m' \<in> ?res"
    and cl2: "\<forall>x \<in> ?res - ?A1. members_in mapping x ?res"
    using "3.IH"(2) by blast+
  have mono: "members_in mapping x ?A1 \<Longrightarrow> members_in mapping x ?res" for x
    using sub unfolding members_in_def by blast
  have "\<forall>x \<in> ?res - active_types. members_in mapping x ?res"
    using cl1 cl2 mono by blast
  moreover have "\<forall>m' \<in> set (m # ms). map_of mapping m' \<noteq> None \<longrightarrow> m' \<in> ?res"
    using m_in ms_in sub by auto
  ultimately show ?case by simp
qed

lemma spec_ActiveTypes_closed:
  "\<forall>x \<in> spec_ActiveTypes R mp. members_in mp x (spec_ActiveTypes R mp)"
  unfolding members_in_def by (blast intro: spec_ActiveTypes.member)

lemma spec_ActiveTypes_least:
  assumes "R \<subseteq> S" "\<forall>x \<in> S. members_in mp x S"
  shows "spec_ActiveTypes R mp \<subseteq> S"
proof
  fix x assume "x \<in> spec_ActiveTypes R mp"
  then show "x \<in> S"
  proof induction
    case (root r)
    then show ?case using assms(1) by blast
  next
    case (member s st m)
    then show ?case using assms(2) unfolding members_in_def by blast
  qed
qed

lemma traverse_active_struct_types_closure:
  "traverse_active_struct_types base_types mp = spec_ActiveTypes (known_roots base_types mp) mp"
proof
  have eq: "traverse_active_struct_types base_types mp = traverse_member_types {} base_types mp"
    by (simp add: traverse_active_struct_types_def traverse_member_types_fold)
  show "traverse_active_struct_types base_types mp \<subseteq> spec_ActiveTypes (known_roots base_types mp) mp"
    unfolding eq
    by (rule traverse_within(2) [OF spec_ActiveTypes_closed])
       (auto simp: known_roots_def intro: spec_ActiveTypes.root)
  have "known_roots base_types mp \<subseteq> traverse_member_types {} base_types mp"
    using traverse_closed(2) [of base_types mp "{}"] by (auto simp: known_roots_def)
  moreover have "\<forall>x \<in> traverse_member_types {} base_types mp.
      members_in mp x (traverse_member_types {} base_types mp)"
    using traverse_closed(2) [of base_types mp "{}"] by simp
  ultimately show "spec_ActiveTypes (known_roots base_types mp) mp
      \<subseteq> traverse_active_struct_types base_types mp"
    unfolding eq by (rule spec_ActiveTypes_least)
qed


lemma spec_ActiveTypes_mono:
  assumes "R \<subseteq> R'"
  shows "spec_ActiveTypes R mp \<subseteq> spec_ActiveTypes R' mp"
  by (rule spec_ActiveTypes_least [OF _ spec_ActiveTypes_closed])
     (use assms in \<open>auto intro: spec_ActiveTypes.root\<close>)

lemma spec_ActiveTypes_known:
  assumes "x \<in> spec_ActiveTypes R mp" "\<forall>r \<in> R. map_of mp r \<noteq> None"
  shows "map_of mp x \<noteq> None"
  using assms by (induction rule: spec_ActiveTypes.induct) auto

lemma traverse_active_struct_types_known:
  "x \<in> traverse_active_struct_types base_types mp \<Longrightarrow> map_of mp x \<noteq> None"
  unfolding traverse_active_struct_types_closure
  by (erule spec_ActiveTypes_known) (simp add: known_roots_def)

section \<open>Properties of the classifier and of the lookups that follow it\<close>

lemma find_extending_loop_known:
  "find_extending_loop depth A ks mp acc = Inr E \<Longrightarrow> \<forall>x \<in> acc. map_of mp x \<noteq> None
     \<Longrightarrow> x \<in> E \<Longrightarrow> map_of mp x \<noteq> None"
proof (induction ks arbitrary: acc)
  case Nil
  then show ?case by simp
next
  case (Cons m ks)
  show ?case
  proof (cases "struct_extends_any depth A m mp")
    case (Inl err)
    then show ?thesis using Cons.prems by simp
  next
    case (Inr b)
    show ?thesis
    proof (cases b)
      case True
      have "\<forall>x \<in> acc \<union> traverse_active_struct_types [m] mp. map_of mp x \<noteq> None"
        using Cons.prems(2) traverse_active_struct_types_known by blast
      moreover have "find_extending_loop depth A ks mp
          (acc \<union> traverse_active_struct_types [m] mp) = Inr E"
        using Cons.prems(1) Inr True by simp
      ultimately show ?thesis using Cons.IH Cons.prems(3) by blast
    next
      case False
      then have "find_extending_loop depth A ks mp acc = Inr E"
        using Cons.prems(1) Inr by simp
      then show ?thesis using Cons.IH Cons.prems(2,3) by blast
    qed
  qed
qed

lemma find_extending_structs_known:
  "find_extending_structs depth A mp = Inr E \<Longrightarrow> x \<in> E \<Longrightarrow> map_of mp x \<noteq> None"
  unfolding find_extending_structs_def
  by (erule find_extending_loop_known) simp_all

lemma find_active_enum_types_defined:
  assumes "\<forall>x \<in> A. map_of mp x \<noteq> None" "\<forall>x \<in> E. map_of mp x \<noteq> None"
  shows "\<exists>S. find_active_enum_types A E mp en bm = Inr S"
  using assms by (simp add: find_active_enum_types_def)

lemma print_new_structs_defined:
  "\<forall>x \<in> set ns. map_of tbl x \<noteq> None \<Longrightarrow> \<exists>items. print_new_structs tbl ns = (items, Inr ())"
proof (induction ns)
  case Nil
  then show ?case by (simp add: printed_def)
next
  case (Cons n ns)
  then obtain s where s: "map_of tbl n = Some s" by auto
  from Cons obtain items where "print_new_structs tbl ns = (items, Inr ())" by auto
  then show ?case using s by (simp add: and_then_def printed_def)
qed

lemma scan_type_new_structs:
  "set (new_structs (scan_type env n acc))
     \<subseteq> set (new_structs acc) \<union> (env_active_types env \<union> env_extending_types env)"
  by (auto simp: scan_type_def Let_def split: option.splits)

lemma scan_enum_new_structs: "new_structs (scan_enum env e acc) = new_structs acc"
  by (simp add: scan_enum_def Let_def split: option.splits)

lemma fold_scan_type_new_structs:
  "set (new_structs (fold (scan_type env) ns acc))
     \<subseteq> set (new_structs acc) \<union> (env_active_types env \<union> env_extending_types env)"
proof (induction ns arbitrary: acc)
  case Nil
  then show ?case by simp
next
  case (Cons n ns)
  show ?case using Cons.IH [of "scan_type env n acc"] scan_type_new_structs [of env n acc]
    by auto
qed

lemma fold_scan_enum_new_structs:
  "new_structs (fold (scan_enum env) es acc) = new_structs acc"
  by (induction es arbitrary: acc) (simp_all add: scan_enum_new_structs)

lemma scan_require_new_structs:
  "set (new_structs (scan_require env r acc))
     \<subseteq> set (new_structs acc) \<union> (env_active_types env \<union> env_extending_types env)"
  by (simp add: scan_require_def fold_scan_enum_new_structs fold_scan_type_new_structs)

lemma fold_scan_require_new_structs:
  "set (new_structs (fold (scan_require env) rs acc))
     \<subseteq> set (new_structs acc) \<union> (env_active_types env \<union> env_extending_types env)"
proof (induction rs arbitrary: acc)
  case Nil
  then show ?case by simp
next
  case (Cons r rs)
  show ?case using Cons.IH [of "scan_require env r acc"] scan_require_new_structs [of env r acc]
    by auto
qed

lemma scan_extension_new_structs:
  "set (new_structs (scan_extension env ext))
     \<subseteq> env_active_types env \<union> env_extending_types env"
  using fold_scan_require_new_structs [of env "extension_requires ext" no_additions]
  by (simp add: scan_extension_def no_additions_def)

lemma example_table_active:
  "traverse_active_struct_types [''R'', ''Q''] example_table = {''R'', ''A''}"
  by (auto simp: traverse_active_struct_types_def example_table_def)

subsection \<open>The recursion along EXTENDS\<close>
















section \<open>Properties of the report\<close>

lemma scan_type_fields:
  "new_structs (scan_type env n acc)
     = new_structs acc @ filter (is_new_struct env) [resolve (env_type_aliases env) n]"
  "new_enums (scan_type env n acc)
     = new_enums acc @ filter (is_new_enum env) [resolve (env_type_aliases env) n]"
  "extended_enums (scan_type env n acc) = extended_enums acc"
  "feature_structs (scan_type env n acc)
     = feature_structs acc @ filter (is_feature_struct env) [resolve (env_type_aliases env) n]"
  "property_structs (scan_type env n acc)
     = property_structs acc @ filter (is_property_struct env) [resolve (env_type_aliases env) n]"
  by (simp_all add: scan_type_def Let_def is_new_struct_def is_new_enum_def
      is_feature_struct_def is_property_struct_def split: option.splits)

lemma scan_enum_fields:
  "new_structs (scan_enum env e acc) = new_structs acc"
  "new_enums (scan_enum env e acc) = new_enums acc"
  "extended_enums (scan_enum env e acc) = extended_enums acc @ enum_pair env e"
  "feature_structs (scan_enum env e acc) = feature_structs acc"
  "property_structs (scan_enum env e acc) = property_structs acc"
  by (simp_all add: scan_enum_def Let_def enum_pair_def split: option.splits)

lemma fold_scan_type_fields:
  "new_structs (fold (scan_type env) ns acc)
     = new_structs acc @ filter (is_new_struct env) (map (resolve (env_type_aliases env)) ns)"
  "new_enums (fold (scan_type env) ns acc)
     = new_enums acc @ filter (is_new_enum env) (map (resolve (env_type_aliases env)) ns)"
  "extended_enums (fold (scan_type env) ns acc) = extended_enums acc"
  "feature_structs (fold (scan_type env) ns acc)
     = feature_structs acc
       @ filter (is_feature_struct env) (map (resolve (env_type_aliases env)) ns)"
  "property_structs (fold (scan_type env) ns acc)
     = property_structs acc
       @ filter (is_property_struct env) (map (resolve (env_type_aliases env)) ns)"
  by (induction ns arbitrary: acc) (simp_all add: scan_type_fields)

lemma fold_scan_enum_fields:
  "new_structs (fold (scan_enum env) es acc) = new_structs acc"
  "new_enums (fold (scan_enum env) es acc) = new_enums acc"
  "extended_enums (fold (scan_enum env) es acc)
     = extended_enums acc @ concat (map (enum_pair env) es)"
  "feature_structs (fold (scan_enum env) es acc) = feature_structs acc"
  "property_structs (fold (scan_enum env) es acc) = property_structs acc"
  by (induction es arbitrary: acc) (simp_all add: scan_enum_fields)

lemma fold_scan_require_fields:
  "new_structs (fold (scan_require env) rs acc)
     = new_structs acc
       @ filter (is_new_struct env)
           (map (resolve (env_type_aliases env)) (concat (map require_types rs)))"
  "new_enums (fold (scan_require env) rs acc)
     = new_enums acc
       @ filter (is_new_enum env)
           (map (resolve (env_type_aliases env)) (concat (map require_types rs)))"
  "extended_enums (fold (scan_require env) rs acc)
     = extended_enums acc @ concat (map (enum_pair env) (concat (map require_enums rs)))"
  "feature_structs (fold (scan_require env) rs acc)
     = feature_structs acc
       @ filter (is_feature_struct env)
           (map (resolve (env_type_aliases env)) (concat (map require_types rs)))"
  "property_structs (fold (scan_require env) rs acc)
     = property_structs acc
       @ filter (is_property_struct env)
           (map (resolve (env_type_aliases env)) (concat (map require_types rs)))"
  by (induction rs arbitrary: acc)
     (simp_all add: scan_require_def fold_scan_enum_fields fold_scan_type_fields)

lemma scan_extension_fields:
  "new_structs (scan_extension env ext) = filter (is_new_struct env) (type_refs env ext)"
  "new_enums (scan_extension env ext) = filter (is_new_enum env) (type_refs env ext)"
  "extended_enums (scan_extension env ext) = concat (map (enum_pair env) (enum_refs ext))"
  "feature_structs (scan_extension env ext) = filter (is_feature_struct env) (type_refs env ext)"
  "property_structs (scan_extension env ext)
     = filter (is_property_struct env) (type_refs env ext)"
  by (simp_all add: scan_extension_def fold_scan_require_fields no_additions_def type_refs_def
      enum_refs_def)

lemma cherry_analyse:
  "analyse (Suc 0) cherry_registry =
     Inr \<lparr>an_type_aliases = [(''VALUE_OLD'', ''VALUE_NEW'')],
          an_model = \<lparr>struct_types =
              [(''VkSamplerCreateInfo'',
                \<lparr>extends = [], member_types = [''VkStructureType'', ''VkE'']\<rparr>)],
            enum_types = [(''VkE'', \<lparr>extensions = {}\<rparr>)],
            bitmask_requirements = [],
            shallow_copy_pnext_size_lut = []\<rparr>,
          an_active_types = {''VkSamplerCreateInfo''},
          an_extending_types = {}\<rparr>"
  by (simp add: analyse_def cherry_registry_def plain_type_def process_type_def
      struct_size_rows_def struct_extends_def resolve_def empty_model_def
      traverse_active_struct_types_def top_level_types_def find_extending_structs_def)

lemma cherry_groups:
  "registry_extensions cherry_registry = Some
     [\<lparr>extension_name = ''VK_EXT_example'', extension_supported = ''vulkan'',
       extension_requires =
         [\<lparr>require_types = [],
           require_enums =
             [\<lparr>enum_ref_name = ''VALUE_OLD'', enum_ref_extends = Some ''VkE''\<rparr>]\<rparr>]\<rparr>]"
  "registry_spirvextensions cherry_registry = Some []"
  "registry_spirvcapabilities cherry_registry = Some []"
  by (simp_all add: cherry_registry_def)

lemma cherry_enums:
  "find_active_enum_types {''VkSamplerCreateInfo''} {}
     [(''VkSamplerCreateInfo'', \<lparr>extends = [], member_types = [''VkStructureType'', ''VkE'']\<rparr>)]
     [(''VkE'', \<lparr>extensions = {}\<rparr>)] [] = Inr {''VkE''}"
  by (simp add: find_active_enum_types_def)

lemma section_emitted_iff:
  "section_emitted a \<longleftrightarrow> new_structs a \<noteq> [] \<or> new_enums a \<noteq> [] \<or> extended_enums a \<noteq> []"
  by (auto simp: section_emitted_def)

lemma extension_section_silent:
  "\<not> section_emitted (scan_extension env ext) \<Longrightarrow> extension_section env ext = ([], Inr ())"
  by (simp add: extension_section_def printed_def)

lemma and_then_printed: "and_then (printed xs) f = (xs @ fst (f ()), snd (f ()))"
  by (simp add: and_then_def printed_def split: prod.splits)

lemma and_then_Inl: "and_then (xs, Inl err) f = (xs, Inl err)"
  by (simp add: and_then_def)

lemma and_then_Inr: "and_then (xs, Inr v) f = (xs @ fst (f v), snd (f v))"
  by (simp add: and_then_def split: prod.splits)

lemma and_then_cases:
  "and_then step f =
     (case snd step of
        Inl err \<Rightarrow> (fst step, Inl err)
      | Inr v \<Rightarrow> (fst step @ fst (f v), snd (f v)))"
  by (cases step) (simp add: and_then_def split: sum.splits prod.splits)

lemma extension_section_emitted:
  assumes "section_emitted (scan_extension env ext)"
  shows "extension_section env ext =
    (case snd (print_new_structs (env_struct_types env) (new_structs (scan_extension env ext))) of
       Inl err \<Rightarrow>
         (Print [Str ''==='', Str (extension_name ext), Str ''==='']
          # fst (print_new_structs (env_struct_types env)
                   (new_structs (scan_extension env ext))), Inl err)
     | Inr _ \<Rightarrow>
         (Print [Str ''==='', Str (extension_name ext), Str ''==='']
          # fst (print_new_structs (env_struct_types env)
                   (new_structs (scan_extension env ext)))
          @ map (\<lambda>new_enum. Print [Str (CHR 0x09 # new_enum)])
              (new_enums (scan_extension env ext))
          @ map (\<lambda>extended_enum.
                   Print [Str (CHR 0x09 # fst extended_enum), Str ''adds'',
                          Str (snd extended_enum)])
              (extended_enums (scan_extension env ext))
          @ [Print [Str ''   Feature:'',
                    Str (join '', '' (feature_structs (scan_extension env ext)))],
             Print [Str ''  Property:'',
                    Str (join '', '' (property_structs (scan_extension env ext)))],
             Print [Str []]], Inr ()))"
  using assms
  by (simp add: extension_section_def Let_def and_then_printed and_then_cases printed_def
      split: sum.splits)

lemma extension_section_header:
  assumes "section_emitted (scan_extension env ext)"
  shows "\<exists>items r. extension_section env ext
           = (Print [Str ''==='', Str (extension_name ext), Str ''===''] # items, r)"
  unfolding extension_section_emitted [OF assms] by (simp split: sum.splits)

lemma extension_section_summaries:
  assumes "section_emitted (scan_extension env ext)"
    and "extension_section env ext = (items, Inr ())"
  shows "Print [Str ''   Feature:'', Str (join '', '' (feature_structs (scan_extension env ext)))]
           \<in> set items \<and>
         Print [Str ''  Property:'', Str (join '', '' (property_structs (scan_extension env ext)))]
           \<in> set items"
  using assms(2) unfolding extension_section_emitted [OF assms(1)]
  by (auto split: sum.splits)

lemma quiet_extension_supported: "supports_vulkan quiet_extension"
  by (simp add: supports_vulkan_def quiet_extension_def)

lemma quiet_extension_refs:
  "type_refs example_env quiet_extension = [''VkNew'', ''VkUnknown'']"
  "enum_refs quiet_extension =
     [\<lparr>enum_ref_name = ''VK_EXT_QUIET_SPEC_VERSION'', enum_ref_extends = None\<rparr>,
      \<lparr>enum_ref_name = ''VK_OTHER_VALUE'', enum_ref_extends = Some ''VkOther''\<rparr>]"
  by (simp_all add: type_refs_def enum_refs_def quiet_extension_def example_env_def resolve_def)

section \<open>Properties of the size table\<close>

lemma pnext_size_row_none:
  "set exts \<inter> top_level_types_pipeline = {} \<Longrightarrow> pnext_size_row exts t name = Inr []"
  by (induction exts) auto

lemma pnext_size_row_some:
  "set exts \<inter> top_level_types_pipeline \<noteq> {} \<Longrightarrow>
   pnext_size_row exts t name =
     (case t_members t of
        [] \<Rightarrow> Inl AttributeError
      | m # _ \<Rightarrow>
          (case member_values m of
             None \<Rightarrow> Inl KeyError
           | Some stype \<Rightarrow> Inr (''{ '' @ stype @ '', sizeof('' @ name @ '') },'' @ [CHR 0x0A])))"
  by (induction exts) auto

lemma struct_size_rows_none:
  assumes "set (struct_extends type_aliases t) \<inter> top_level_types_pipeline = {}"
  shows "struct_size_rows type_aliases t name = Inr []"
  using assms by (simp add: struct_size_rows_def pnext_size_row_none split: option.splits)

lemma struct_size_rows_some:
  assumes "set (struct_extends type_aliases t) \<inter> top_level_types_pipeline \<noteq> {}"
  shows "struct_size_rows type_aliases t name =
     (case first_member_tag t of
        None \<Rightarrow> (case t_members t of [] \<Rightarrow> Inl AttributeError | _ \<Rightarrow> Inl KeyError)
      | Some stype \<Rightarrow> Inr (''{ '' @ stype @ '', sizeof('' @ name @ '') },'' @ [CHR 0x0A]))"
proof -
  have "t_structextends t \<noteq> None" using assms by (auto simp: struct_extends_def)
  then show ?thesis
    using pnext_size_row_some [OF assms, of t name]
    by (auto simp: struct_size_rows_def first_member_tag_def split: option.splits list.splits)
qed

lemma process_type_lut:
  assumes "process_type type_aliases t mdl = Inr mdl'"
  shows "shallow_copy_pnext_size_lut mdl'
           = shallow_copy_pnext_size_lut mdl @ size_table_rows type_aliases t"
    and "chains_onto_pipeline type_aliases t
           \<Longrightarrow> \<exists>name stype. t_name t = Some name \<and> first_member_tag t = Some stype"
proof -
  show "shallow_copy_pnext_size_lut mdl'
           = shallow_copy_pnext_size_lut mdl @ size_table_rows type_aliases t"
  proof (cases "chains_onto_pipeline type_aliases t")
    case True
    then have c: "t_category t = Some ''struct''"
      and e: "set (struct_extends type_aliases t) \<inter> top_level_types_pipeline \<noteq> {}"
      by (simp_all add: chains_onto_pipeline_def)
    show ?thesis
      using assms c True
      by (auto simp: process_type_def size_table_rows_def struct_size_rows_some [OF e]
          split: option.splits sum.splits list.splits)
  next
    case False
    show ?thesis
    proof (cases "t_category t = Some ''struct''")
      case True
      then have e: "set (struct_extends type_aliases t) \<inter> top_level_types_pipeline = {}"
        using False by (simp add: chains_onto_pipeline_def)
      show ?thesis
        using assms True False
        by (auto simp: process_type_def size_table_rows_def struct_size_rows_none [OF e]
            split: option.splits)
    next
      case False': False
      show ?thesis
        using assms False False'
        by (auto simp: process_type_def size_table_rows_def add_bitmask_requirement_def Let_def
            split: option.splits if_splits)
    qed
  qed
next
  assume ch: "chains_onto_pipeline type_aliases t"
  then have c: "t_category t = Some ''struct''"
    and e: "set (struct_extends type_aliases t) \<inter> top_level_types_pipeline \<noteq> {}"
    by (simp_all add: chains_onto_pipeline_def)
  show "\<exists>name stype. t_name t = Some name \<and> first_member_tag t = Some stype"
    using assms c
    by (auto simp: process_type_def struct_size_rows_some [OF e]
        split: option.splits sum.splits list.splits)
qed

lemma process_types_lut:
  assumes "process_types type_aliases ts mdl = Inr mdl'"
  shows "shallow_copy_pnext_size_lut mdl'
           = shallow_copy_pnext_size_lut mdl @ concat (map (size_table_rows type_aliases) ts)"
    and "\<forall>t \<in> set ts. chains_onto_pipeline type_aliases t
           \<longrightarrow> (\<exists>name stype. t_name t = Some name \<and> first_member_tag t = Some stype)"
  using assms
proof (induction ts arbitrary: mdl)
  case Nil
  { case 1 then show ?case by simp }
  { case 2 then show ?case by simp }
next
  case (Cons t ts)
  { case 1
    then obtain mdl1 where m: "process_type type_aliases t mdl = Inr mdl1"
      "process_types type_aliases ts mdl1 = Inr mdl'"
      by (auto split: sum.splits)
    show ?case using process_type_lut(1) [OF m(1)] Cons.IH(1) [OF m(2)] by simp }
  { case 2
    then obtain mdl1 where m: "process_type type_aliases t mdl = Inr mdl1"
      "process_types type_aliases ts mdl1 = Inr mdl'"
      by (auto split: sum.splits)
    show ?case using process_type_lut(2) [OF m(1)] Cons.IH(2) [OF m(2)] by simp }
qed

lemma pipeline_types_model:
  "process_types [] pipeline_types empty_model =
     Inr \<lparr>struct_types =
            [(''VkFooEXT'',
              \<lparr>extends = [''VkGraphicsPipelineCreateInfo'', ''VkComputePipelineCreateInfo''],
               member_types = [''VkStructureType'', ''uint32_t'']\<rparr>),
             (''VkBarEXT'',
              \<lparr>extends = [''VkSamplerCreateInfo''], member_types = [''VkStructureType'']\<rparr>)],
          enum_types = [], bitmask_requirements = [],
          shallow_copy_pnext_size_lut =
            ''{ VK_STRUCTURE_TYPE_FOO_EXT, sizeof(VkFooEXT) },'' @ [CHR 0x0A]\<rparr>"
  by (simp add: pipeline_types_def plain_type_def process_type_def struct_size_rows_def
      struct_extends_def resolve_def empty_model_def top_level_types_pipeline_def)

section \<open>Properties of the SPIR-V extensions table and of the run\<close>

lemma spirv_enable_loop_Inl:
  "spirv_enable_loop ens core_version vkext = Inl err \<longleftrightarrow>
     err = TypeError \<and>
     (case vkext of
        None \<Rightarrow> 1 < length (filter (\<lambda>en. enable_extension en \<noteq> None) ens)
      | Some _ \<Rightarrow> 0 < length (filter (\<lambda>en. enable_extension en \<noteq> None) ens))"
proof (induction ens arbitrary: core_version vkext)
  case Nil
  then show ?case by (simp split: option.splits)
next
  case (Cons en ens)
  show ?case
  proof (cases "enable_extension en")
    case None
    then show ?thesis using Cons.IH by (cases vkext) (simp_all add: Let_def)
  next
    case (Some x)
    then show ?thesis using Cons.IH by (cases vkext) (auto simp: Let_def)
  qed
qed

lemma spirv_extension_row_several:
  "declares_several ext \<Longrightarrow> spirv_extension_row ext = ([], Inl TypeError)"
proof -
  assume "declares_several ext"
  then have "spirv_enable_loop (spirv_enables ext) None None = Inl TypeError"
    by (simp add: spirv_enable_loop_Inl declares_several_def extension_conditions_def)
  then show ?thesis by (simp add: spirv_extension_row_def)
qed

lemma spirv_extension_row_single:
  assumes "\<not> declares_several ext"
  shows "snd (spirv_extension_row ext) = Inr ()"
proof (cases "spirv_enable_loop (spirv_enables ext) None None")
  case (Inl err)
  then show ?thesis
    using assms
    by (simp add: spirv_enable_loop_Inl declares_several_def extension_conditions_def)
next
  case (Inr p)
  then show ?thesis by (cases p) (simp add: spirv_extension_row_def printed_def)
qed

lemma spirv_extension_rows_abort:
  assumes "\<exists>ext \<in> set exts. declares_several ext"
  shows "spirv_extension_rows exts =
     (concat (map (\<lambda>ext. fst (spirv_extension_row ext))
                (takeWhile (\<lambda>ext. \<not> declares_several ext) exts)),
      Inl TypeError)"
  using assms
proof (induction exts)
  case Nil
  then show ?case by simp
next
  case (Cons ext exts)
  show ?case
  proof (cases "declares_several ext")
    case True
    then show ?thesis by (simp add: spirv_extension_row_several and_then_Inl)
  next
    case False
    then have rest: "\<exists>ext \<in> set exts. declares_several ext" using Cons.prems by auto
    have "spirv_extension_rows (ext # exts)
      = (fst (spirv_extension_row ext) @ fst (spirv_extension_rows exts),
         snd (spirv_extension_rows exts))"
      using spirv_extension_row_single [OF False] by (simp add: and_then_cases)
    then show ?thesis using Cons.IH [OF rest] False by simp
  qed
qed

lemma spirv_extensions_section_abort:
  assumes "registry_spirvextensions root = Some exts" "\<exists>ext \<in> set exts. declares_several ext"
  shows "spirv_extensions_section root =
     (Print [Str ([CHR 0x0A, CHR 0x0A] @ ''=== SPIR-V extensions table ==='')]
      # concat (map (\<lambda>ext. fst (spirv_extension_row ext))
                  (takeWhile (\<lambda>ext. \<not> declares_several ext) exts)),
      Inl TypeError)"
  by (simp add: spirv_extensions_section_def and_then_printed assms(1)
      spirv_extension_rows_abort [OF assms(2)])

lemma report_sections_first:
  "\<exists>items. fst (report_sections root completed an)
     = Print [Str ([CHR 0x0A, CHR 0x0A] @ ''=== pNext LUT ==='')] # items"
  by (simp add: report_sections_def and_then_printed)

lemma main_cases:
  "main depth root completed =
     (case analyse depth root of
        Inl err \<Rightarrow> ([], Inl err)
      | Inr an \<Rightarrow>
          (case snd (report_sections root completed an) of
             Inl err \<Rightarrow> (fst (report_sections root completed an), Inl err)
           | Inr _ \<Rightarrow>
               (case snd (spirv_extensions_section root) of
                  Inl err \<Rightarrow>
                    (fst (report_sections root completed an) @ fst (spirv_extensions_section root),
                     Inl err)
                | Inr _ \<Rightarrow>
                    (fst (report_sections root completed an) @ fst (spirv_extensions_section root)
                       @ fst (spirv_capabilities_sections root completed),
                     snd (spirv_capabilities_sections root completed)))))"
  by (simp add: main_def and_then_cases split: sum.splits)

lemma spirv_registry_groups:
  "registry_extensions spirv_registry = Some []"
  "registry_spirvextensions spirv_registry = Some
     [\<lparr>spirv_name = ''SPV_KHR_good'',
       spirv_enables = [plain_enable\<lparr>enable_version := Some ''VK_VERSION_1_1''\<rparr>,
                        plain_enable\<lparr>enable_extension := Some ''VK_KHR_good''\<rparr>]\<rparr>,
      \<lparr>spirv_name = ''SPV_KHR_twice'',
       spirv_enables = [plain_enable\<lparr>enable_extension := Some ''VK_KHR_one''\<rparr>,
                        plain_enable\<lparr>enable_extension := Some ''VK_KHR_two''\<rparr>]\<rparr>]"
  "registry_spirvcapabilities spirv_registry = Some []"
  by (simp_all add: spirv_registry_def)

lemma spirv_registry_analyse:
  "analyse (Suc 0) spirv_registry =
     Inr \<lparr>an_type_aliases = [], an_model = empty_model, an_active_types = {},
          an_extending_types = {}\<rparr>"
  by (simp add: analyse_def spirv_registry_def empty_model_def traverse_active_struct_types_def
      top_level_types_def find_extending_structs_def)

lemma spirv_registry_report:
  "report_sections spirv_registry []
     \<lparr>an_type_aliases = [], an_model = empty_model, an_active_types = {},
      an_extending_types = {}\<rparr> =
     ([Print [Str ([CHR 0x0A, CHR 0x0A] @ ''=== pNext LUT ==='')],
       Print [Str []],
       Print [Str ([CHR 0x0A, CHR 0x0A] @ ''=== Base Types ==='')],
       Print_each {},
       Print [Str ([CHR 0x0A, CHR 0x0A] @ ''=== Extending Types ==='')],
       Print_each {},
       Print [Str ([CHR 0x0A, CHR 0x0A] @ ''=== Active Enums ==='')],
       Print_each {},
       Print [Str ([CHR 0x0A, CHR 0x0A] @ ''=== Completed extensions ==='')],
       Print [Str ([CHR 0x0A, CHR 0x0A] @ ''=== Additions ==='')]],
      Inr ())"
  by (simp add: report_sections_def and_then_def printed_def spirv_registry_groups
      empty_model_def find_active_enum_types_def ledger_set_def)

lemma spirv_registry_several:
  "\<not> declares_several
       \<lparr>spirv_name = ''SPV_KHR_good'',
        spirv_enables = [plain_enable\<lparr>enable_version := Some ''VK_VERSION_1_1''\<rparr>,
                         plain_enable\<lparr>enable_extension := Some ''VK_KHR_good''\<rparr>]\<rparr>"
  "declares_several
       \<lparr>spirv_name = ''SPV_KHR_twice'',
        spirv_enables = [plain_enable\<lparr>enable_extension := Some ''VK_KHR_one''\<rparr>,
                         plain_enable\<lparr>enable_extension := Some ''VK_KHR_two''\<rparr>]\<rparr>"
  by (simp_all add: declares_several_def extension_conditions_def plain_enable_def)

section \<open>The claims\<close>




text \<open>
  C7: the active-type closure is monotone in its root set: for root lists over the same
  structure table, if every root of the first is a root of the second, then every active
  type of the first is an active type of the second.
\<close>

theorem C7_closure_monotone:
  assumes "set base_types \<subseteq> set base_types'"
  shows "traverse_active_struct_types base_types mapping
           \<subseteq> traverse_active_struct_types base_types' mapping"
proof -
  have "known_roots base_types mapping \<subseteq> known_roots base_types' mapping"
    using assms by (auto simp: known_roots_def)
  then show ?thesis
    unfolding traverse_active_struct_types_closure by (rule spec_ActiveTypes_mono)
qed

theorem C7_closure_monotone_witness:
  "set [''A''] \<subseteq> set [''A'', ''X''] \<and>
   traverse_active_struct_types [''A''] example_table
     \<subseteq> traverse_active_struct_types [''A'', ''X''] example_table \<and>
   ''X'' \<in> traverse_active_struct_types [''A'', ''X''] example_table \<and>
   ''X'' \<notin> traverse_active_struct_types [''A''] example_table"
proof -
  have h: "set [''A''] \<subseteq> set [''A'', ''X'']" by simp
  have "''X'' \<in> traverse_active_struct_types [''A'', ''X''] example_table"
    by (simp add: traverse_active_struct_types_def example_table_def)
  moreover have "''X'' \<notin> traverse_active_struct_types [''A''] example_table"
    by (simp add: traverse_active_struct_types_def example_table_def)
  ultimately show ?thesis using h C7_closure_monotone [OF h, of example_table] by blast
qed




text \<open>
  C9: every element of the computed ActiveTypes set is a key of the structure table, also
  when a root is not a known structure, and so is every element of a computed
  ExtendingTypes set. Consequently the lookups that follow are defined:
  \<open>find_active_enum_types\<close> on the two sets raises no \<open>KeyError\<close>, and neither does the
  loop that prints the \<open>extends\<close> of the new structures of an extension.
\<close>

theorem C9_active_and_extending_are_keys:
  "(\<forall>x \<in> traverse_active_struct_types base_types mapping. map_of mapping x \<noteq> None) \<and>
   (\<forall>E. find_extending_structs depth A mapping = Inr E
        \<longrightarrow> (\<forall>x \<in> E. map_of mapping x \<noteq> None)) \<and>
   (\<forall>E. find_extending_structs depth (traverse_active_struct_types base_types mapping) mapping
          = Inr E
        \<longrightarrow> (\<exists>S. find_active_enum_types (traverse_active_struct_types base_types mapping) E
                   mapping en bm = Inr S) \<and>
            (env_struct_types env = mapping
               \<and> env_active_types env = traverse_active_struct_types base_types mapping
               \<and> env_extending_types env = E
             \<longrightarrow> (\<exists>items. print_new_structs mapping (new_structs (scan_extension env ext))
                    = (items, Inr ()))))"
proof (intro conjI allI impI ballI)
  fix x assume "x \<in> traverse_active_struct_types base_types mapping"
  then show "map_of mapping x \<noteq> None" by (rule traverse_active_struct_types_known)
next
  fix E x assume "find_extending_structs depth A mapping = Inr E" "x \<in> E"
  then show "map_of mapping x \<noteq> None" by (rule find_extending_structs_known)
next
  fix E
  assume E: "find_extending_structs depth (traverse_active_struct_types base_types mapping)
      mapping = Inr E"
  show "\<exists>S. find_active_enum_types (traverse_active_struct_types base_types mapping) E
      mapping en bm = Inr S"
    by (rule find_active_enum_types_defined)
       (use traverse_active_struct_types_known find_extending_structs_known [OF E] in blast)+
next
  fix E
  assume E: "find_extending_structs depth (traverse_active_struct_types base_types mapping)
      mapping = Inr E"
  assume env: "env_struct_types env = mapping
      \<and> env_active_types env = traverse_active_struct_types base_types mapping
      \<and> env_extending_types env = E"
  have "\<forall>x \<in> set (new_structs (scan_extension env ext)). map_of mapping x \<noteq> None"
    using scan_extension_new_structs [of env ext] env
      traverse_active_struct_types_known [of _ base_types mapping]
      find_extending_structs_known [OF E]
    by blast
  then show "\<exists>items. print_new_structs mapping (new_structs (scan_extension env ext))
      = (items, Inr ())"
    by (rule print_new_structs_defined)
qed

theorem C9_active_and_extending_are_keys_witness:
  "find_extending_structs (Suc (Suc 0))
       (traverse_active_struct_types [''R'', ''Q''] example_table) example_table = Inr {''X''} \<and>
   ''Q'' \<notin> traverse_active_struct_types [''R'', ''Q''] example_table \<and>
   map_of example_table ''A'' \<noteq> None \<and> map_of example_table ''X'' \<noteq> None \<and>
   (\<exists>S. find_active_enum_types (traverse_active_struct_types [''R'', ''Q''] example_table)
          {''X''} example_table [] [] = Inr S)"
proof -
  have E: "find_extending_structs (Suc (Suc 0))
      (traverse_active_struct_types [''R'', ''Q''] example_table) example_table = Inr {''X''}"
    unfolding example_table_active
    by (simp add: find_extending_structs_def example_table_def traverse_active_struct_types_def)
  have A: "''A'' \<in> traverse_active_struct_types [''R'', ''Q''] example_table"
    and Q: "''Q'' \<notin> traverse_active_struct_types [''R'', ''Q''] example_table"
    by (simp_all add: example_table_active)
  show ?thesis
    using E A Q
      C9_active_and_extending_are_keys [of "[''R'', ''Q'']" example_table "Suc (Suc 0)"
        "traverse_active_struct_types [''R'', ''Q''] example_table" "[]" "[]"]
    by blast
qed





text \<open>
  C3: a name whose alias-resolved form is in \<open>cherryPicked\<close> never appears in the
  new-struct, new-enum or enum-value-extension output, the test for enum-value references
  being made on the alias-resolved name. The scan of an enum-value reference tests the
  name as written and resolves it afterwards, so the run below, whose completed-work
  document cherry-picks \<open>VALUE_NEW\<close>, prints the line \<open>VkE adds VALUE_NEW\<close> for the
  reference \<open>VALUE_OLD\<close>, an alias of \<open>VALUE_NEW\<close>.
\<close>

theorem C3_cherry_picked_enum_value_reported:
  "''VALUE_NEW'' \<in> ledger_set cherry_ledger ''cherry-pick'' \<and>
   main (Suc 0) cherry_registry cherry_ledger =
     ([Print [Str ([CHR 0x0A, CHR 0x0A] @ ''=== pNext LUT ==='')],
       Print [Str []],
       Print [Str ([CHR 0x0A, CHR 0x0A] @ ''=== Base Types ==='')],
       Print_each {''VkSamplerCreateInfo''},
       Print [Str ([CHR 0x0A, CHR 0x0A] @ ''=== Extending Types ==='')],
       Print_each {},
       Print [Str ([CHR 0x0A, CHR 0x0A] @ ''=== Active Enums ==='')],
       Print_each {''VkE''},
       Print [Str ([CHR 0x0A, CHR 0x0A] @ ''=== Completed extensions ==='')],
       Print [Str ([CHR 0x0A, CHR 0x0A] @ ''=== Additions ==='')],
       Print [Str ''==='', Str ''VK_EXT_example'', Str ''===''],
       Print [Str (CHR 0x09 # ''VkE''), Str ''adds'', Str ''VALUE_NEW''],
       Print [Str ''   Feature:'', Str []],
       Print [Str ''  Property:'', Str []],
       Print [Str []],
       Print [Str ([CHR 0x0A, CHR 0x0A] @ ''=== SPIR-V extensions table ==='')],
       Print [Str ([CHR 0x0A, CHR 0x0A] @ ''=== Completed SPIR-V capabilities ==='')],
       Print [Str ([CHR 0x0A, CHR 0x0A] @ ''=== Missing SPIR-V capabilities ==='')]],
      Inr ())"
  by (simp add: main_def cherry_analyse cherry_enums report_sections_def and_then_def printed_def
      cherry_groups cherry_ledger_def ledger_set_def supports_vulkan_def
      extension_section_def scan_extension_def scan_require_def scan_enum_def scan_type_def
      no_additions_def section_emitted_def resolve_def spirv_extensions_section_def
      spirv_capabilities_sections_def)

text \<open>
  C6: for an extension that supports the target API and is neither completed nor ignored,
  the Additions loop runs the extension's section; the section prints something only if
  the extension contributed a new struct, a new enum or an enum-value pair; and an
  extension whose requirement blocks reference only names absent from ActiveTypes,
  ExtendingTypes and ActiveEnums (its alias-resolved type references, and the extension
  targets of its enum-value references) prints nothing.
\<close>

theorem C6_section_only_for_contributions:
  assumes "supports_vulkan ext"
    and "extension_name ext \<notin> completed_extensions"
    and "extension_name ext \<notin> ignored_extensions"
  shows "additions_rows env (ext # exts) completed_extensions ignored_extensions
           = and_then (extension_section env ext)
               (\<lambda>_. additions_rows env exts completed_extensions ignored_extensions) \<and>
         (fst (extension_section env ext) \<noteq> []
            \<longrightarrow> new_structs (scan_extension env ext) \<noteq> []
                \<or> new_enums (scan_extension env ext) \<noteq> []
                \<or> extended_enums (scan_extension env ext) \<noteq> []) \<and>
         ((\<forall>n \<in> set (type_refs env ext).
              n \<notin> env_active_types env \<and> n \<notin> env_extending_types env
              \<and> n \<notin> env_active_enums env)
          \<and> (\<forall>e \<in> set (enum_refs ext). \<forall>target.
                enum_ref_extends e = Some target \<longrightarrow> target \<notin> env_active_enums env)
            \<longrightarrow> extension_section env ext = ([], Inr ()))"
proof (intro conjI impI)
  show "additions_rows env (ext # exts) completed_extensions ignored_extensions
      = and_then (extension_section env ext)
          (\<lambda>_. additions_rows env exts completed_extensions ignored_extensions)"
    using assms by simp
next
  assume "fst (extension_section env ext) \<noteq> []"
  then have "section_emitted (scan_extension env ext)"
    by (cases "section_emitted (scan_extension env ext)")
       (simp_all add: extension_section_silent)
  then show "new_structs (scan_extension env ext) \<noteq> []
      \<or> new_enums (scan_extension env ext) \<noteq> []
      \<or> extended_enums (scan_extension env ext) \<noteq> []"
    by (simp add: section_emitted_iff)
next
  assume absent: "(\<forall>n \<in> set (type_refs env ext).
        n \<notin> env_active_types env \<and> n \<notin> env_extending_types env \<and> n \<notin> env_active_enums env)
      \<and> (\<forall>e \<in> set (enum_refs ext). \<forall>target.
            enum_ref_extends e = Some target \<longrightarrow> target \<notin> env_active_enums env)"
  have "filter (is_new_struct env) (type_refs env ext) = []"
    using absent by (auto simp: filter_empty_conv is_new_struct_def)
  moreover have "filter (is_new_enum env) (type_refs env ext) = []"
    using absent by (auto simp: filter_empty_conv is_new_enum_def)
  moreover have "concat (map (enum_pair env) (enum_refs ext)) = []"
    using absent by (auto simp: enum_pair_def split: option.splits)
  ultimately have "\<not> section_emitted (scan_extension env ext)"
    by (simp add: section_emitted_iff scan_extension_fields)
  then show "extension_section env ext = ([], Inr ())" by (rule extension_section_silent)
qed

theorem C6_section_only_for_contributions_witness:
  "supports_vulkan quiet_extension \<and> extension_name quiet_extension \<notin> {''VK_KHR_done''} \<and>
   extension_name quiet_extension \<notin> {} \<and>
   extension_section example_env quiet_extension = ([], Inr ()) \<and>
   additions_rows example_env [quiet_extension] {''VK_KHR_done''} {} = ([], Inr ())"
proof -
  have n1: "extension_name quiet_extension \<notin> {''VK_KHR_done''}"
    and n2: "extension_name quiet_extension \<notin> {}"
    by (simp_all add: quiet_extension_def)
  have absent: "(\<forall>n \<in> set (type_refs example_env quiet_extension).
        n \<notin> env_active_types example_env \<and> n \<notin> env_extending_types example_env
        \<and> n \<notin> env_active_enums example_env)
      \<and> (\<forall>e \<in> set (enum_refs quiet_extension). \<forall>target.
            enum_ref_extends e = Some target \<longrightarrow> target \<notin> env_active_enums example_env)"
    by (simp add: quiet_extension_refs) (simp add: example_env_def)
  have sec: "extension_section example_env quiet_extension = ([], Inr ())"
    and rows: "additions_rows example_env [quiet_extension] {''VK_KHR_done''} {}
      = and_then (extension_section example_env quiet_extension)
          (\<lambda>_. additions_rows example_env [] {''VK_KHR_done''} {})"
    using C6_section_only_for_contributions [OF quiet_extension_supported n1 n2,
        of example_env "[]"] absent
    by blast+
  have "additions_rows example_env [quiet_extension] {''VK_KHR_done''} {} = ([], Inr ())"
    unfolding rows sec by (simp add: and_then_def printed_def)
  then show ?thesis using quiet_extension_supported n1 n2 sec by blast
qed

text \<open>
  C10: every type reference whose alias-resolved name is a known structure is recorded in
  the Feature summary if its EXTENDS set contains \<open>VkPhysicalDeviceFeatures2\<close> and in the
  Property summary if it contains \<open>VkPhysicalDeviceProperties2\<close>, whether or not the name
  is cherry-picked or in one of the three sets. The two summaries play no part in the
  test that emits a section: without a new struct, a new enum or an enum-value pair
  nothing is printed, and an emitted section ends with the two summary lines.
\<close>

theorem C10_feature_property_summaries:
  "feature_structs (scan_extension env ext)
     = filter (\<lambda>n. \<exists>s. map_of (env_struct_types env) n = Some s
                     \<and> ''VkPhysicalDeviceFeatures2'' \<in> set (extends s))
         (type_refs env ext) \<and>
   property_structs (scan_extension env ext)
     = filter (\<lambda>n. \<exists>s. map_of (env_struct_types env) n = Some s
                     \<and> ''VkPhysicalDeviceProperties2'' \<in> set (extends s))
         (type_refs env ext) \<and>
   (section_emitted (scan_extension env ext)
      \<longleftrightarrow> new_structs (scan_extension env ext) \<noteq> []
          \<or> new_enums (scan_extension env ext) \<noteq> []
          \<or> extended_enums (scan_extension env ext) \<noteq> []) \<and>
   (\<not> section_emitted (scan_extension env ext)
      \<longrightarrow> extension_section env ext = ([], Inr ())) \<and>
   (section_emitted (scan_extension env ext) \<and> extension_section env ext = (items, Inr ())
      \<longrightarrow> Print [Str ''   Feature:'',
                  Str (join '', '' (feature_structs (scan_extension env ext)))] \<in> set items
          \<and> Print [Str ''  Property:'',
                    Str (join '', '' (property_structs (scan_extension env ext)))] \<in> set items)"
proof -
  have f: "is_feature_struct env = (\<lambda>n. \<exists>s. map_of (env_struct_types env) n = Some s
      \<and> ''VkPhysicalDeviceFeatures2'' \<in> set (extends s))"
    by (rule ext) (simp add: is_feature_struct_def split: option.splits)
  have p: "is_property_struct env = (\<lambda>n. \<exists>s. map_of (env_struct_types env) n = Some s
      \<and> ''VkPhysicalDeviceProperties2'' \<in> set (extends s))"
    by (rule ext) (simp add: is_property_struct_def split: option.splits)
  show ?thesis
    using scan_extension_fields(4,5) [of env ext] extension_section_silent [of env ext]
      extension_section_summaries [of env ext items] section_emitted_iff
    unfolding f p by blast
qed

theorem C10_feature_property_summaries_witness:
  "resolve (env_type_aliases example_env) ''VkOldKHR'' = ''VkNew'' \<and>
   ''VkNew'' \<in> env_cherry_picked example_env \<and>
   ''VkNew'' \<notin> env_active_types example_env \<union> env_extending_types example_env
      \<union> env_active_enums example_env \<and>
   feature_structs (scan_extension example_env quiet_extension) = [''VkNew''] \<and>
   property_structs (scan_extension example_env quiet_extension) = [] \<and>
   \<not> section_emitted (scan_extension example_env quiet_extension) \<and>
   extension_section example_env quiet_extension = ([], Inr ())"
proof -
  have q: "\<not> section_emitted (scan_extension example_env quiet_extension)"
    by (simp add: section_emitted_def scan_extension_def scan_require_def scan_type_def
        scan_enum_def quiet_extension_def example_env_def resolve_def no_additions_def)
  have "filter (\<lambda>n. \<exists>s. map_of (env_struct_types example_env) n = Some s
      \<and> ''VkPhysicalDeviceFeatures2'' \<in> set (extends s))
      (type_refs example_env quiet_extension) = [''VkNew'']"
    by (simp add: quiet_extension_refs) (simp add: example_env_def)
  moreover have "filter (\<lambda>n. \<exists>s. map_of (env_struct_types example_env) n = Some s
      \<and> ''VkPhysicalDeviceProperties2'' \<in> set (extends s))
      (type_refs example_env quiet_extension) = []"
    by (simp add: quiet_extension_refs) (simp add: example_env_def)
  moreover have "resolve (env_type_aliases example_env) ''VkOldKHR'' = ''VkNew''"
    and "''VkNew'' \<in> env_cherry_picked example_env"
    and "''VkNew'' \<notin> env_active_types example_env \<union> env_extending_types example_env
      \<union> env_active_enums example_env"
    by (simp_all add: example_env_def resolve_def)
  ultimately show ?thesis
    using q C10_feature_property_summaries [of example_env quiet_extension "[]"] by simp
qed


text \<open>
  C5: a structure whose EXTENDS set names one or more pipeline roots gets exactly one
  size-table row, the pair of the discriminant tag of its first declared member and
  \<open>sizeof\<close> of the structure, however many pipeline roots it names; a structure whose
  EXTENDS set names no pipeline root gets no row. So when the model is built, the size
  table is the starting text followed by one row for each structure element that chains
  onto a pipeline root, in the order of the registry, and nothing for the other elements.
\<close>

theorem C5_one_size_row_per_structure:
  "(set (struct_extends type_aliases t) \<inter> top_level_types_pipeline = {}
      \<longrightarrow> struct_size_rows type_aliases t name = Inr []) \<and>
   (set (struct_extends type_aliases t) \<inter> top_level_types_pipeline \<noteq> {}
      \<and> first_member_tag t = Some stype
      \<longrightarrow> struct_size_rows type_aliases t name
            = Inr (''{ '' @ stype @ '', sizeof('' @ name @ '') },'' @ [CHR 0x0A])) \<and>
   (process_types type_aliases types mdl = Inr mdl'
      \<longrightarrow> shallow_copy_pnext_size_lut mdl'
            = shallow_copy_pnext_size_lut mdl @ concat (map (size_table_rows type_aliases) types)
          \<and> (\<forall>t \<in> set types.
                if chains_onto_pipeline type_aliases t
                then \<exists>name stype. t_name t = Some name \<and> first_member_tag t = Some stype
                       \<and> size_table_rows type_aliases t
                           = ''{ '' @ stype @ '', sizeof('' @ name @ '') },'' @ [CHR 0x0A]
                else size_table_rows type_aliases t = []))"
proof (intro conjI impI)
  assume "set (struct_extends type_aliases t) \<inter> top_level_types_pipeline = {}"
  then show "struct_size_rows type_aliases t name = Inr []" by (rule struct_size_rows_none)
next
  assume "set (struct_extends type_aliases t) \<inter> top_level_types_pipeline \<noteq> {}
      \<and> first_member_tag t = Some stype"
  then show "struct_size_rows type_aliases t name
      = Inr (''{ '' @ stype @ '', sizeof('' @ name @ '') },'' @ [CHR 0x0A])"
    by (simp add: struct_size_rows_some)
next
  assume ok: "process_types type_aliases types mdl = Inr mdl'"
  then show "shallow_copy_pnext_size_lut mdl'
      = shallow_copy_pnext_size_lut mdl @ concat (map (size_table_rows type_aliases) types)"
    by (rule process_types_lut(1))
next
  assume ok: "process_types type_aliases types mdl = Inr mdl'"
  show "\<forall>t \<in> set types.
      if chains_onto_pipeline type_aliases t
      then \<exists>name stype. t_name t = Some name \<and> first_member_tag t = Some stype
             \<and> size_table_rows type_aliases t
                 = ''{ '' @ stype @ '', sizeof('' @ name @ '') },'' @ [CHR 0x0A]
      else size_table_rows type_aliases t = []"
  proof
    fix t assume t: "t \<in> set types"
    show "if chains_onto_pipeline type_aliases t
      then \<exists>name stype. t_name t = Some name \<and> first_member_tag t = Some stype
             \<and> size_table_rows type_aliases t
                 = ''{ '' @ stype @ '', sizeof('' @ name @ '') },'' @ [CHR 0x0A]
      else size_table_rows type_aliases t = []"
    proof (cases "chains_onto_pipeline type_aliases t")
      case True
      then obtain name stype where "t_name t = Some name" "first_member_tag t = Some stype"
        using process_types_lut(2) [OF ok] t by blast
      then show ?thesis using True by (simp add: size_table_rows_def)
    next
      case False
      then show ?thesis by (simp add: size_table_rows_def)
    qed
  qed
qed

theorem C5_one_size_row_per_structure_witness:
  "{''VkGraphicsPipelineCreateInfo'', ''VkComputePipelineCreateInfo''}
     \<subseteq> set (struct_extends [] (hd pipeline_types)) \<inter> top_level_types_pipeline \<and>
   first_member_tag (hd pipeline_types) = Some ''VK_STRUCTURE_TYPE_FOO_EXT'' \<and>
   struct_size_rows [] (hd pipeline_types) ''VkFooEXT''
     = Inr (''{ VK_STRUCTURE_TYPE_FOO_EXT, sizeof(VkFooEXT) },'' @ [CHR 0x0A]) \<and>
   set (struct_extends [] (pipeline_types ! 1)) \<inter> top_level_types_pipeline = {} \<and>
   struct_size_rows [] (pipeline_types ! 1) ''VkBarEXT'' = Inr [] \<and>
   (\<exists>mdl'. process_types [] pipeline_types empty_model = Inr mdl' \<and>
      shallow_copy_pnext_size_lut mdl'
        = ''{ VK_STRUCTURE_TYPE_FOO_EXT, sizeof(VkFooEXT) },'' @ [CHR 0x0A]) \<and>
   concat (map (size_table_rows []) pipeline_types)
     = ''{ VK_STRUCTURE_TYPE_FOO_EXT, sizeof(VkFooEXT) },'' @ [CHR 0x0A]"
proof -
  have ext0: "struct_extends [] (hd pipeline_types)
      = [''VkGraphicsPipelineCreateInfo'', ''VkComputePipelineCreateInfo'']"
    and ext1: "struct_extends [] (pipeline_types ! 1) = [''VkSamplerCreateInfo'']"
    and tag: "first_member_tag (hd pipeline_types) = Some ''VK_STRUCTURE_TYPE_FOO_EXT''"
    by (simp_all add: pipeline_types_def plain_type_def struct_extends_def resolve_def
        first_member_tag_def)
  have in0: "set (struct_extends [] (hd pipeline_types)) \<inter> top_level_types_pipeline \<noteq> {}"
    and sub0: "{''VkGraphicsPipelineCreateInfo'', ''VkComputePipelineCreateInfo''}
      \<subseteq> set (struct_extends [] (hd pipeline_types)) \<inter> top_level_types_pipeline"
    and in1: "set (struct_extends [] (pipeline_types ! 1)) \<inter> top_level_types_pipeline = {}"
    unfolding ext0 ext1 by (simp_all add: top_level_types_pipeline_def)
  have lut0: "shallow_copy_pnext_size_lut empty_model = []" by (simp add: empty_model_def)
  obtain mdl' where m: "process_types [] pipeline_types empty_model = Inr mdl'"
    and lut: "shallow_copy_pnext_size_lut mdl'
      = ''{ VK_STRUCTURE_TYPE_FOO_EXT, sizeof(VkFooEXT) },'' @ [CHR 0x0A]"
    by (simp add: pipeline_types_model)
  note a = C5_one_size_row_per_structure [of "[]" "hd pipeline_types" "''VkFooEXT''"
      "''VK_STRUCTURE_TYPE_FOO_EXT''" pipeline_types empty_model mdl']
  note b = C5_one_size_row_per_structure [of "[]" "pipeline_types ! 1" "''VkBarEXT''"]
  have "shallow_copy_pnext_size_lut mdl'
      = shallow_copy_pnext_size_lut empty_model
        @ concat (map (size_table_rows []) pipeline_types)"
    using a m by blast
  then have "concat (map (size_table_rows []) pipeline_types)
      = ''{ VK_STRUCTURE_TYPE_FOO_EXT, sizeof(VkFooEXT) },'' @ [CHR 0x0A]"
    unfolding lut lut0 by simp
  moreover have "struct_size_rows [] (hd pipeline_types) ''VkFooEXT''
      = Inr (''{ VK_STRUCTURE_TYPE_FOO_EXT, sizeof(VkFooEXT) },'' @ [CHR 0x0A])"
    using a in0 tag by simp
  moreover have "struct_size_rows [] (pipeline_types ! 1) ''VkBarEXT'' = Inr []"
    using b in1 by blast
  ultimately show ?thesis
    using sub0 tag in1 m lut by blast
qed


text \<open>
  C4, as stated: when some SPIR-V extension declares more than one enabling
  Vulkan-extension condition, the run aborts fatally, before any output is produced. The
  check sits inside the loop that prints the SPIR-V extensions table, after every
  earlier section: the run below ends with the exception, having printed twelve items,
  among them the row of the SPIR-V extension that precedes the offending one.
\<close>

theorem C4_output_before_abort_counterexample:
  "declares_several
     \<lparr>spirv_name = ''SPV_KHR_twice'',
      spirv_enables = [plain_enable\<lparr>enable_extension := Some ''VK_KHR_one''\<rparr>,
                       plain_enable\<lparr>enable_extension := Some ''VK_KHR_two''\<rparr>]\<rparr> \<and>
   main (Suc 0) spirv_registry [] =
     ([Print [Str ([CHR 0x0A, CHR 0x0A] @ ''=== pNext LUT ==='')],
       Print [Str []],
       Print [Str ([CHR 0x0A, CHR 0x0A] @ ''=== Base Types ==='')],
       Print_each {},
       Print [Str ([CHR 0x0A, CHR 0x0A] @ ''=== Extending Types ==='')],
       Print_each {},
       Print [Str ([CHR 0x0A, CHR 0x0A] @ ''=== Active Enums ==='')],
       Print_each {},
       Print [Str ([CHR 0x0A, CHR 0x0A] @ ''=== Completed extensions ==='')],
       Print [Str ([CHR 0x0A, CHR 0x0A] @ ''=== Additions ==='')],
       Print [Str ([CHR 0x0A, CHR 0x0A] @ ''=== SPIR-V extensions table ==='')],
       Print [Str ''{'',
              Str ([CHR 0x22] @ ''SPV_KHR_good'' @ [CHR 0x22] @ '', '' @ [CHR 0x22]
                   @ ''VK_KHR_good'' @ [CHR 0x22] @ '', VK_API_VERSION_1_1''),
              Str ''},'']],
      Inl TypeError)"
proof -
  have "spirv_extensions_section spirv_registry =
     ([Print [Str ([CHR 0x0A, CHR 0x0A] @ ''=== SPIR-V extensions table ==='')],
       Print [Str ''{'',
              Str ([CHR 0x22] @ ''SPV_KHR_good'' @ [CHR 0x22] @ '', '' @ [CHR 0x22]
                   @ ''VK_KHR_good'' @ [CHR 0x22] @ '', VK_API_VERSION_1_1''),
              Str ''},'']],
      Inl TypeError)"
    by (simp add: spirv_extensions_section_def spirv_registry_groups and_then_def printed_def
        spirv_extension_row_def spirv_row_text_def plain_enable_def)
  then show ?thesis
    by (simp add: main_def spirv_registry_analyse spirv_registry_report
        spirv_registry_several and_then_def)
qed

text \<open>
  C4, amended: when some SPIR-V extension declares more than one enabling
  Vulkan-extension condition, the run aborts fatally: it always ends with an exception.
  Unless an earlier step has already ended it, the exception is the one raised in the
  SPIR-V extensions table at the first such extension, after the earlier sections of the
  report, the header of the table and the rows of the SPIR-V extensions before it have
  been printed; and once the analysis has succeeded, the first thing printed is the
  header of the size table, so the abort does not come before all output.
\<close>

theorem C4_abort_in_spirv_table:
  assumes "registry_spirvextensions root = Some exts"
    and "\<exists>ext \<in> set exts. declares_several ext"
  shows "(\<exists>err. snd (main depth root completed) = Inl err) \<and>
    (\<forall>an. analyse depth root = Inr an
       \<longrightarrow> (\<exists>items. fst (main depth root completed)
              = Print [Str ([CHR 0x0A, CHR 0x0A] @ ''=== pNext LUT ==='')] # items)) \<and>
    (\<forall>an items. analyse depth root = Inr an
         \<and> report_sections root completed an = (items, Inr ())
       \<longrightarrow> main depth root completed
           = (items
              @ Print [Str ([CHR 0x0A, CHR 0x0A] @ ''=== SPIR-V extensions table ==='')]
              # concat (map (\<lambda>ext. fst (spirv_extension_row ext))
                          (takeWhile (\<lambda>ext. \<not> declares_several ext) exts)),
              Inl TypeError))"
proof -
  note sec = spirv_extensions_section_abort [OF assms]
  have 1: "\<exists>err. snd (main depth root completed) = Inl err"
    unfolding main_cases sec by (simp split: sum.splits)
  have 2: "\<exists>items. fst (main depth root completed)
      = Print [Str ([CHR 0x0A, CHR 0x0A] @ ''=== pNext LUT ==='')] # items"
    if "analyse depth root = Inr an" for an
  proof -
    obtain items where "fst (report_sections root completed an)
        = Print [Str ([CHR 0x0A, CHR 0x0A] @ ''=== pNext LUT ==='')] # items"
      using report_sections_first by blast
    then show ?thesis unfolding main_cases sec using that by (simp split: sum.splits)
  qed
  have 3: "main depth root completed
      = (items
         @ Print [Str ([CHR 0x0A, CHR 0x0A] @ ''=== SPIR-V extensions table ==='')]
         # concat (map (\<lambda>ext. fst (spirv_extension_row ext))
                     (takeWhile (\<lambda>ext. \<not> declares_several ext) exts)),
         Inl TypeError)"
    if "analyse depth root = Inr an" "report_sections root completed an = (items, Inr ())"
    for an items
    unfolding main_cases sec using that by simp
  show ?thesis using 1 2 3 by blast
qed

theorem C4_abort_in_spirv_table_witness:
  "registry_spirvextensions spirv_registry \<noteq> None \<and>
   snd (main (Suc 0) spirv_registry []) = Inl TypeError \<and>
   hd (fst (main (Suc 0) spirv_registry []))
     = Print [Str ([CHR 0x0A, CHR 0x0A] @ ''=== pNext LUT ==='')] \<and>
   length (fst (main (Suc 0) spirv_registry [])) = 12"
proof -
  let ?exts = "[\<lparr>spirv_name = ''SPV_KHR_good'',
       spirv_enables = [plain_enable\<lparr>enable_version := Some ''VK_VERSION_1_1''\<rparr>,
                        plain_enable\<lparr>enable_extension := Some ''VK_KHR_good''\<rparr>]\<rparr>,
      \<lparr>spirv_name = ''SPV_KHR_twice'',
       spirv_enables = [plain_enable\<lparr>enable_extension := Some ''VK_KHR_one''\<rparr>,
                        plain_enable\<lparr>enable_extension := Some ''VK_KHR_two''\<rparr>]\<rparr>]"
  have several: "\<exists>ext \<in> set ?exts. declares_several ext"
    using spirv_registry_several(2) by simp
  have row: "fst (spirv_extension_row (hd ?exts)) =
      [Print [Str ''{'',
              Str ([CHR 0x22] @ ''SPV_KHR_good'' @ [CHR 0x22] @ '', '' @ [CHR 0x22]
                   @ ''VK_KHR_good'' @ [CHR 0x22] @ '', VK_API_VERSION_1_1''),
              Str ''},'']]"
    by (simp add: spirv_extension_row_def spirv_row_text_def plain_enable_def printed_def)
  have "main (Suc 0) spirv_registry []
      = ([Print [Str ([CHR 0x0A, CHR 0x0A] @ ''=== pNext LUT ==='')],
          Print [Str []],
          Print [Str ([CHR 0x0A, CHR 0x0A] @ ''=== Base Types ==='')],
          Print_each {},
          Print [Str ([CHR 0x0A, CHR 0x0A] @ ''=== Extending Types ==='')],
          Print_each {},
          Print [Str ([CHR 0x0A, CHR 0x0A] @ ''=== Active Enums ==='')],
          Print_each {},
          Print [Str ([CHR 0x0A, CHR 0x0A] @ ''=== Completed extensions ==='')],
          Print [Str ([CHR 0x0A, CHR 0x0A] @ ''=== Additions ==='')]]
         @ Print [Str ([CHR 0x0A, CHR 0x0A] @ ''=== SPIR-V extensions table ==='')]
         # concat (map (\<lambda>ext. fst (spirv_extension_row ext))
                     (takeWhile (\<lambda>ext. \<not> declares_several ext) ?exts)),
         Inl TypeError)"
    using C4_abort_in_spirv_table [OF spirv_registry_groups(2) several, of "Suc 0" "[]"]
      spirv_registry_analyse spirv_registry_report
    by blast
  then show ?thesis
    using row by (simp add: spirv_registry_several spirv_registry_groups)
qed

end
